theory Spec2Isabelle
  imports Main "HOL-Library.Word"
begin

section \<open>LookupNPI: the search loop of \<open>src/loop/loop.go\<close>\<close>

text \<open>
  The file \<open>loop.go\<close> holds two revisions of the package one after the other; the
  second one (with \<open>CreateFormInputs\<close>, \<open>RemoveSpaces\<close> and the detail list) is the
  program modelled here.

  Go strings are byte sequences: \<open>string\<close> (a list of 8-bit characters), \<open>len\<close> is
  \<open>length\<close>. Go's \<open>int\<close> is a 64-bit two's complement integer on the platforms the
  plugin is built for: \<open>64 word\<close>, read with \<open>sint\<close>, \<open>+\<close> and \<open>-\<close> wrapping around.

  The package keeps its session in three package-level variables, \<open>limit\<close>, \<open>skip\<close>
  and \<open>searchParams\<close>. Every function that reads or writes them takes the record
  \<open>globals\<close> and returns it updated. Calls into the host (whispers, the HTTP request, the
  logger) are recorded in a list of effects, in the order they are made; what the host
  answers is an input of the model. Each callback body is taken as one atomic step: the
  goroutines of the source are not interleaved. A call that shows a choice list stays open
  while the list is on screen, since the host delivers the selections through it; when the
  list is closed, and in what order things happen on screen, is an input as well.
\<close>

subsection \<open>Data\<close>

type_synonym go_int = "64 word"

record Basic =
  FirstName :: string
  LastName :: string
  Organization :: string

record NpiInfo =
  Number :: go_int
  Basic :: Basic
  EnumerationType :: string

record LookupResults =
  ResultCount :: go_int
  Results :: "NpiInfo list"

record SearchParams =
  Number :: string
  FirstName :: string
  LastName :: string
  City :: string
  State :: string
  Organization :: string

record globals =
  skip :: go_int
  searchParams :: SearchParams

text \<open>\<open>var limit int = 20\<close>: no statement of the package assigns to it.\<close>

definition limit :: go_int where
  "limit = 20"

text \<open>The state of a freshly loaded package: \<open>var skip int = 0\<close>, a zero \<open>SearchParams\<close>.\<close>

definition zero_SearchParams :: SearchParams where
  "zero_SearchParams =
     \<lparr>Number = [], FirstName = [], LastName = [], City = [], State = [], Organization = []\<rparr>"

definition init_globals :: globals where
  "init_globals = \<lparr>skip = 0, searchParams = zero_SearchParams\<rparr>"

subsection \<open>Formatting\<close>

text \<open>\<open>fmt.Sprintf("%v", n)\<close> for an \<open>int\<close>: decimal digits, a leading minus sign.\<close>

function digits :: "int \<Rightarrow> string" where
  "digits n =
     (if n < 10 then [''0123456789'' ! nat n]
      else digits (n div 10) @ [''0123456789'' ! nat (n mod 10)])"
  by pat_completeness auto
termination
  by (relation "measure nat") auto

declare digits.simps [simp del]

definition Sprint_int :: "go_int \<Rightarrow> string" where
  "Sprint_int n = (if sint n < 0 then CHR ''-'' # digits (- sint n) else digits (sint n))"

text \<open>\<open>strings.ReplaceAll(s, " ", "+")\<close>: the old string is one byte, so every
  occurrence is one position of \<open>s\<close>.\<close>

definition ReplaceAll_space_plus :: "string \<Rightarrow> string" where
  "ReplaceAll_space_plus s = concat (map (\<lambda>c. if c = CHR '' '' then ''+'' else [c]) s)"

text \<open>The label of every choice list:
  \<open>fmt.Sprintf("LookupNPI Results for: %v %v %v %v %v %v", Number, FirstName, LastName,
  Organization, City, State)\<close>.\<close>

definition results_label :: "SearchParams \<Rightarrow> string" where
  "results_label p =
     ''LookupNPI Results for: '' @ SearchParams.Number p @ '' '' @ SearchParams.FirstName p @ '' ''
       @ SearchParams.LastName p @ '' '' @ SearchParams.Organization p @ '' '' @ City p @ '' ''
       @ State p"

text \<open>The URL that \<open>GetLookupResults\<close> formats.\<close>

definition lookup_url :: "SearchParams \<Rightarrow> go_int \<Rightarrow> go_int \<Rightarrow> string" where
  "lookup_url p lim sk =
     ''https://npiregistry.cms.hhs.gov/api/?number='' @ SearchParams.Number p
       @ ''&enumeration_type=&taxonomy_description=&first_name='' @ SearchParams.FirstName p
       @ ''&last_name='' @ SearchParams.LastName p
       @ ''&organization_name='' @ SearchParams.Organization p
       @ ''&address_purpose=&city='' @ City p
       @ ''&state='' @ State p
       @ ''&postal_code=&country_code=&limit='' @ Sprint_int lim
       @ ''&skip='' @ Sprint_int sk
       @ ''&version=2.0''"

subsection \<open>The host\<close>

text \<open>
  \<open>Network().HTTPRequest\<close> returns a pointer to a response, which may be nil, and an
  error, which may be nil. \<open>json.Unmarshal\<close> fills the zero-valued \<open>LookupResults\<close> and
  returns an error or nil. Both are parameters of the model. So are the errors that the
  \<open>Disambiguation\<close> whisper and the \<open>List\<close> whisper return, given here by the label of
  the whisper.
\<close>

record HTTPResponse =
  Data :: string

record host =
  HTTPRequest :: "string \<Rightarrow> HTTPResponse option \<times> string option"
  Unmarshal :: "string \<Rightarrow> LookupResults \<times> string option"
  Disambiguation :: "string \<Rightarrow> string option"
  List :: "string \<Rightarrow> string option"

text \<open>What selecting a choice does: the three \<open>OnChange\<close> closures of
  \<open>CreateDisambiguationElements\<close>.\<close>

datatype on_select = Show_List NpiInfo | Go_next | Go_prev

record WhisperContentDisambiguationElementOption =
  Label :: string
  Order :: "32 word"
  OnChange :: on_select

type_synonym elements = "string \<rightharpoonup> WhisperContentDisambiguationElementOption"

datatype effect =
    Http_GET string
  | Log_Error string
  | Whisper_Form
  | Whisper_Markdown string string
  | Whisper_Disambiguation string elements
  | Whisper_List string

text \<open>A goroutine either runs to its end or panics (a nil pointer is dereferenced).\<close>

datatype status = Completed | Panicked

subsection \<open>The Query Model\<close>

definition ClearSearchParams :: "globals \<Rightarrow> globals" where
  "ClearSearchParams g =
     g\<lparr>searchParams := (searchParams g)\<lparr>City := [], FirstName := [], LastName := [],
          Number := [], Organization := [], State := []\<rparr>\<rparr>"

definition RemoveSpaces :: "SearchParams \<Rightarrow> SearchParams" where
  "RemoveSpaces params =
     params\<lparr>City := ReplaceAll_space_plus (City params),
            FirstName := ReplaceAll_space_plus (SearchParams.FirstName params),
            LastName := ReplaceAll_space_plus (SearchParams.LastName params),
            Number := ReplaceAll_space_plus (SearchParams.Number params),
            Organization := ReplaceAll_space_plus (SearchParams.Organization params),
            State := ReplaceAll_space_plus (State params)\<rparr>"

text \<open>
  The six \<open>OnChange\<close> closures of \<open>CreateFormInputs\<close>. The second argument is the text
  of the input; the third is the error that the \<open>Markdown\<close> whisper returns if the closure
  emits one (\<open>None\<close> for nil).
\<close>

datatype input = Input_number | Input_firstName | Input_lastName | Input_organization
  | Input_city | Input_state

definition set_params :: "(SearchParams \<Rightarrow> SearchParams) \<Rightarrow> globals \<Rightarrow> globals" where
  "set_params f g = g\<lparr>searchParams := f (searchParams g)\<rparr>"

fun Input_OnChange :: "input \<Rightarrow> string \<Rightarrow> string option \<Rightarrow> globals \<Rightarrow> globals \<times> effect list" where
  "Input_OnChange Input_number number err g =
     (if length number \<noteq> 10 \<and> length number > 0 then
        (case err of
           Some e \<Rightarrow>
             (g, [Whisper_Markdown ''LookupNPI Error'' ''Npi must be 10 digits'',
                  Log_Error ''failed to emit whisper''])
         | None \<Rightarrow>
             (set_params (\<lambda>p. p\<lparr>Number := number\<rparr>) g,
              [Whisper_Markdown ''LookupNPI Error'' ''Npi must be 10 digits'']))
      else (set_params (\<lambda>p. p\<lparr>Number := number\<rparr>) g, []))"
| "Input_OnChange Input_firstName firstName err g =
     (set_params (\<lambda>p. p\<lparr>FirstName := firstName @ ''*''\<rparr>) g, [])"
| "Input_OnChange Input_lastName lastName err g =
     (set_params (\<lambda>p. p\<lparr>LastName := lastName @ ''*''\<rparr>) g, [])"
| "Input_OnChange Input_organization organization err g =
     (set_params (\<lambda>p. p\<lparr>Organization := organization @ ''*''\<rparr>) g, [])"
| "Input_OnChange Input_city city err g =
     (let g' = set_params (\<lambda>p. p\<lparr>City := city @ ''*''\<rparr>) g in
      if State (searchParams g') = [] then
        (case err of
           Some e \<Rightarrow>
             (g', [Whisper_Markdown ''LookNPI Error'' ''Searching by City requires State'',
                   Log_Error ''failed to emit whisper''])
         | None \<Rightarrow>
             (g', [Whisper_Markdown ''LookNPI Error'' ''Searching by City requires State'']))
      else (g', []))"
| "Input_OnChange Input_state state err g =
     (let g' = set_params (\<lambda>p. p\<lparr>State := state @ ''*''\<rparr>) g in
      if City (searchParams g') = [] then
        (case err of
           Some e \<Rightarrow>
             (g', [Whisper_Markdown ''LookNPI Error'' ''Searching by State requires City'',
                   Log_Error ''failed to emit whisper''])
         | None \<Rightarrow>
             (g', [Whisper_Markdown ''LookNPI Error'' ''Searching by State requires City'']))
      else (g', []))"

text \<open>
  \<open>Whisper().Form\<close> shows the form, calls the \<open>OnChange\<close> closure of an input each time
  the user edits it, and returns whether the form was submitted, and an error. The user's
  part is an input of the model.
\<close>

record form_use =
  edits :: "(input \<times> string \<times> string option) list"
  isSubmitted :: bool
  form_err :: "string option"

fun apply_edits :: "(input \<times> string \<times> string option) list \<Rightarrow> globals \<Rightarrow> globals \<times> effect list" where
  "apply_edits [] g = (g, [])"
| "apply_edits ((i, text, err) # es) g =
     (let (g', fx) = Input_OnChange i text err g;
          (g'', fx') = apply_edits es g'
      in (g'', fx @ fx'))"

definition Form :: "form_use \<Rightarrow> globals \<Rightarrow> globals \<times> effect list" where
  "Form u g = (let (g', fx) = apply_edits (edits u) g in (g', Whisper_Form # fx))"

subsection \<open>The Lookup Gateway\<close>

text \<open>
  \<open>GetLookupResults\<close> formats the URL, sends the request and decodes the answer. Its Go
  result type is \<open>LookupResults\<close> alone: an error of the transport or of the decoder is
  logged and the function goes on. \<open>resp.Data\<close> is read whatever the error, so a nil
  response panics: the result is \<open>None\<close> then.
\<close>

definition GetLookupResults ::
  "host \<Rightarrow> SearchParams \<Rightarrow> go_int \<Rightarrow> go_int \<Rightarrow> LookupResults option \<times> effect list" where
  "GetLookupResults h params lim sk =
     (let url = lookup_url params lim sk;
          (resp, err) = HTTPRequest h url;
          fx = Http_GET url # (if err \<noteq> None then [Log_Error ''Lookup failed''] else [])
      in case resp of
           None \<Rightarrow> (None, fx)
         | Some r \<Rightarrow>
             (let (lookupResults, err') = Unmarshal h (Data r)
              in (Some lookupResults,
                  fx @ (if err' \<noteq> None then [Log_Error ''JSON Unmarshal failed''] else []))))"

subsection \<open>The Result Presenter\<close>

definition item_label :: "NpiInfo \<Rightarrow> string" where
  "item_label item =
     (let label = [];
          label = (if Basic.FirstName (Basic item) \<noteq> []
                   then ''Name: '' @ Basic.FirstName (Basic item) @ '' ''
                          @ Basic.LastName (Basic item)
                   else label);
          label = (if Basic.Organization (Basic item) \<noteq> []
                   then ''Organization: '' @ Basic.Organization (Basic item)
                   else label)
      in label)"

definition item_option :: "nat \<Rightarrow> NpiInfo \<Rightarrow> WhisperContentDisambiguationElementOption" where
  "item_option i item =
     \<lparr>Label = ''* NPI: '' @ Sprint_int (NpiInfo.Number item) @ '', '' @ item_label item,
      Order = word_of_nat i + 1,
      OnChange = Show_List item\<rparr>"

definition next_option :: "NpiInfo list \<Rightarrow> WhisperContentDisambiguationElementOption" where
  "next_option results =
     \<lparr>Label = ''Next 20 Results'', Order = word_of_nat (length results) + 1, OnChange = Go_next\<rparr>"

definition prev_option :: "NpiInfo list \<Rightarrow> WhisperContentDisambiguationElementOption" where
  "prev_option results =
     \<lparr>Label = ''Previous 20 Results'', Order = word_of_nat (length results) + 1,
      OnChange = Go_prev\<rparr>"

text \<open>The Go map is keyed by \<open>fmt.Sprintf("%v", i)\<close> for the records and by \<open>"next"\<close> and
  \<open>"prev"\<close> for the two page choices.\<close>

definition CreateDisambiguationElements :: "NpiInfo list \<Rightarrow> elements" where
  "CreateDisambiguationElements results =
     (let elements =
            fold (\<lambda>i m. m(Sprint_int (word_of_nat i) \<mapsto> item_option i (results ! i)))
              [0 ..< length results] Map.empty;
          elements = (if int (length results) = sint limit
                      then elements(''next'' \<mapsto> next_option results) else elements)
      in elements(''prev'' \<mapsto> prev_option results))"

subsection \<open>The Session Controller\<close>

text \<open>The closure of the \<open>"next"\<close> choice and the closure of the \<open>"prev"\<close> choice. Both
  read the package-level \<open>searchParams\<close> and \<open>skip\<close> when they run.\<close>

definition next_OnChange :: "host \<Rightarrow> globals \<Rightarrow> status \<times> globals \<times> effect list" where
  "next_OnChange h g =
     (let g = g\<lparr>skip := skip g + limit\<rparr>;
          (r, fx) = GetLookupResults h (searchParams g) limit (skip g)
      in case r of
           None \<Rightarrow> (Panicked, g, fx)
         | Some lookupResults \<Rightarrow>
             (let elements = CreateDisambiguationElements (Results lookupResults);
                  label = results_label (searchParams g)
              in (Completed, g,
                  fx @ [Whisper_Disambiguation label elements]
                     @ (case Disambiguation h label of
                          Some e \<Rightarrow> [Log_Error ''Whisper Disambiguation failed'']
                        | None \<Rightarrow> []))))"

definition prev_OnChange :: "host \<Rightarrow> globals \<Rightarrow> status \<times> globals \<times> effect list" where
  "prev_OnChange h g =
     (let g = (if skip g \<noteq> 0 then g\<lparr>skip := skip g - limit\<rparr> else g);
          (r, fx) = GetLookupResults h (searchParams g) limit (skip g)
      in case r of
           None \<Rightarrow> (Panicked, g, fx)
         | Some lookupResults \<Rightarrow>
             (let elements = CreateDisambiguationElements (Results lookupResults);
                  label = results_label (searchParams g)
              in (Completed, g,
                  fx @ [Whisper_Disambiguation label elements]
                     @ (case Disambiguation h label of
                          Some e \<Rightarrow> [Log_Error ''Whisper Disambiguation failed'']
                        | None \<Rightarrow> []))))"

text \<open>\<open>run\<close>: clear the query, show the form, look up, show the choices if the form was
  submitted, clear the query.\<close>

definition run :: "host \<Rightarrow> form_use \<Rightarrow> globals \<Rightarrow> status \<times> globals \<times> effect list" where
  "run h u g =
     (let g = ClearSearchParams g;
          (g, fx_form) = Form u g;
          fx_err = (if form_err u \<noteq> None then [Log_Error ''Form Whisper failed''] else []);
          (r, fx_lookup) = GetLookupResults h (RemoveSpaces (searchParams g)) limit 0
      in case r of
           None \<Rightarrow> (Panicked, g, fx_form @ fx_err @ fx_lookup)
         | Some lookupResults \<Rightarrow>
             (let elements = CreateDisambiguationElements (Results lookupResults);
                  fx_show = (if isSubmitted u
                             then [Whisper_Disambiguation (results_label (searchParams g)) elements]
                             else [])
              in (Completed, ClearSearchParams g, fx_form @ fx_err @ fx_lookup @ fx_show)))"

text \<open>
  \<open>run\<close> up to its call of \<open>Disambiguation\<close> (the statements before the last one). The
  call is made if the form was submitted; it returns when the list is closed, and \<open>run\<close>
  then executes its last statement, \<open>ClearSearchParams\<close>.
\<close>

definition run_to_list :: "host \<Rightarrow> form_use \<Rightarrow> globals \<Rightarrow> status \<times> globals \<times> effect list" where
  "run_to_list h u g =
     (let g = ClearSearchParams g;
          (g, fx_form) = Form u g;
          fx_err = (if form_err u \<noteq> None then [Log_Error ''Form Whisper failed''] else []);
          (r, fx_lookup) = GetLookupResults h (RemoveSpaces (searchParams g)) limit 0
      in case r of
           None \<Rightarrow> (Panicked, g, fx_form @ fx_err @ fx_lookup)
         | Some lookupResults \<Rightarrow>
             (let elements = CreateDisambiguationElements (Results lookupResults);
                  fx_show = (if isSubmitted u
                             then [Whisper_Disambiguation (results_label (searchParams g)) elements]
                             else [])
              in (Completed, g, fx_form @ fx_err @ fx_lookup @ fx_show)))"

text \<open>
  Calling the \<open>OnChange\<close> closure of a choice. The closure of a record shows the detail
  list of the record (the content of that list, \<open>CreateListElements\<close>, is not a subject of
  the properties below: the effect keeps the label of the whisper only).
\<close>

fun call_OnChange :: "host \<Rightarrow> on_select \<Rightarrow> globals \<Rightarrow> status \<times> globals \<times> effect list" where
  "call_OnChange h (Show_List item) g =
     (let label = ''Information for '' @ Sprint_int (NpiInfo.Number item)
      in (Completed, g,
          Whisper_List label
            # (case List h label of
                 Some e \<Rightarrow> [Log_Error ''failed to emit whisper'']
               | None \<Rightarrow> [])))"
| "call_OnChange h Go_next g = next_OnChange h g"
| "call_OnChange h Go_prev g = prev_OnChange h g"

text \<open>
  The session as the user sees it: the package-level variables and the choice lists on
  screen, oldest first, each with the goroutine that shows it (\<open>run\<close> or a closure).

  What happens, one event after the other:
  \<^item> a text is typed into the search bar: the callback of \<open>ListenSearchbar\<close> receives the
    text and an error, and starts \<open>run\<close> for \<open>NPI\<close> or \<open>npi\<close>; the user then uses the
    form. If the form is submitted, \<open>run\<close> shows its list and waits in the call; if it is
    cancelled, \<open>run\<close> makes no such call and runs to its end;
  \<^item> \<open>Select n key\<close>: in the list at position \<open>n\<close> on screen, the choice \<open>key\<close> is
    selected, and its \<open>OnChange\<close> closure runs (nothing happens if there is no such list
    or no such choice);
  \<^item> \<open>Close n\<close>: the list at position \<open>n\<close> on screen is closed and the call that
    shows it returns; if that is the call of \<open>run\<close>, \<open>run\<close> executes its last
    statement.
\<close>

datatype shown_by = By_run | By_closure

record session =
  vars :: globals
  on_screen :: "(shown_by \<times> elements) list"

definition init_session :: session where
  "init_session = \<lparr>vars = init_globals, on_screen = []\<rparr>"

datatype event = Searchbar string "string option" form_use | Select nat string | Close nat

text \<open>Reading a result: the state it leaves, its effects.\<close>

definition globals_of :: "status \<times> 'a \<times> effect list \<Rightarrow> 'a" where
  "globals_of r = fst (snd r)"

definition effects_of :: "status \<times> 'a \<times> effect list \<Rightarrow> effect list" where
  "effects_of r = snd (snd r)"

fun lists_shown :: "effect list \<Rightarrow> elements list" where
  "lists_shown [] = []"
| "lists_shown (Whisper_Disambiguation _ elements # fx) = elements # lists_shown fx"
| "lists_shown (_ # fx) = lists_shown fx"

text \<open>A goroutine has run on the variables of the session: the lists it has shown are on
  screen.\<close>

definition put_on_screen :: "shown_by \<Rightarrow> session \<Rightarrow> status \<times> globals \<times> effect list
    \<Rightarrow> status \<times> session \<times> effect list" where
  "put_on_screen who s r =
     (fst r,
      s\<lparr>vars := globals_of r,
        on_screen := on_screen s @ map (Pair who) (lists_shown (effects_of r))\<rparr>,
      effects_of r)"

fun step :: "host \<Rightarrow> event \<Rightarrow> session \<Rightarrow> status \<times> session \<times> effect list" where
  "step h (Searchbar text err u) s =
     (case err of
        Some e \<Rightarrow> (Completed, s, [Log_Error ''received error from callback''])
      | None \<Rightarrow>
          (if text = ''NPI'' \<or> text = ''npi'' then
             (if isSubmitted u then put_on_screen By_run s (run_to_list h u (vars s))
              else put_on_screen By_run s (run h u (vars s)))
           else (Completed, s, [])))"
| "step h (Select n key) s =
     (if n < length (on_screen s) then
        (case snd (on_screen s ! n) key of
           None \<Rightarrow> (Completed, s, [])
         | Some choice \<Rightarrow> put_on_screen By_closure s (call_OnChange h (OnChange choice) (vars s)))
      else (Completed, s, []))"
| "step h (Close n) s =
     (if n < length (on_screen s) then
        (Completed,
         s\<lparr>vars := (if fst (on_screen s ! n) = By_run then ClearSearchParams (vars s)
                     else vars s),
           on_screen := take n (on_screen s) @ drop (Suc n) (on_screen s)\<rparr>,
         [])
      else (Completed, s, []))"

fun exec :: "host \<Rightarrow> event list \<Rightarrow> session \<Rightarrow> status \<times> session \<times> effect list" where
  "exec h [] s = (Completed, s, [])"
| "exec h (e # es) s =
     (case step h e s of
        (Panicked, s', fx) \<Rightarrow> (Panicked, s', fx)
      | (Completed, s', fx) \<Rightarrow>
          (let (st, s'', fx') = exec h es s' in (st, s'', fx @ fx')))"

text \<open>The URLs requested, the labels of the choice lists shown.\<close>

fun requests :: "effect list \<Rightarrow> string list" where
  "requests [] = []"
| "requests (Http_GET url # fx) = url # requests fx"
| "requests (_ # fx) = requests fx"

fun titles :: "effect list \<Rightarrow> string list" where
  "titles [] = []"
| "titles (Whisper_Disambiguation label _ # fx) = label # titles fx"
| "titles (_ # fx) = titles fx"

subsection \<open>Notions used to state the properties\<close>

text \<open>The query that \<open>run\<close> hands to \<open>GetLookupResults\<close> once the form has closed: the
  package-level \<open>searchParams\<close> as the form left it, through \<open>RemoveSpaces\<close>.\<close>

definition sent_params :: "form_use \<Rightarrow> globals \<Rightarrow> SearchParams" where
  "sent_params u g = RemoveSpaces (searchParams (fst (Form u (ClearSearchParams g))))"

text \<open>The host answers a request with a response (not with a nil pointer).\<close>

definition responds :: "host \<Rightarrow> string \<Rightarrow> bool" where
  "responds h url = (fst (HTTPRequest h url) \<noteq> None)"

text \<open>The records of the page that a request yields (none if the host gives no response).\<close>

definition page_of :: "host \<Rightarrow> string \<Rightarrow> NpiInfo list" where
  "page_of h url =
     (case fst (HTTPRequest h url) of
        None \<Rightarrow> []
      | Some r \<Rightarrow> Results (fst (Unmarshal h (Data r))))"

text \<open>The field of the query that an input of the form writes.\<close>

fun field_of :: "input \<Rightarrow> SearchParams \<Rightarrow> string" where
  "field_of Input_number p = SearchParams.Number p"
| "field_of Input_firstName p = SearchParams.FirstName p"
| "field_of Input_lastName p = SearchParams.LastName p"
| "field_of Input_organization p = SearchParams.Organization p"
| "field_of Input_city p = City p"
| "field_of Input_state p = State p"

text \<open>The characters of a decimal numeral.\<close>

definition digit_chars :: "char set" where
  "digit_chars = set ''0123456789''"

text \<open>The number that a decimal numeral denotes.\<close>

definition digits_value :: "string \<Rightarrow> int" where
  "digits_value s = foldl (\<lambda>a c. 10 * a + (of_char c - 48)) 0 s"

text \<open>The invariant of the offset after at most \<open>n\<close> events: not negative, a multiple of
  twenty, at most \<open>20 * n\<close>.\<close>

definition offset_ok :: "globals \<Rightarrow> nat \<Rightarrow> bool" where
  "offset_ok g n = (0 \<le> sint (skip g) \<and> 20 dvd sint (skip g) \<and> sint (skip g) \<le> 20 * int n)"

text \<open>Concrete inputs: a registry record, a host whose registry answers every request
  with a full page of twenty records, a host whose answer does not decode, and three uses
  of the form.\<close>

definition ann_smith :: NpiInfo where
  "ann_smith =
     \<lparr>NpiInfo.Number = 1234567893,
      Basic = \<lparr>Basic.FirstName = ''ANN'', Basic.LastName = ''SMITH'', Basic.Organization = []\<rparr>,
      EnumerationType = ''NPI-1''\<rparr>"

definition host_full_pages :: host where
  "host_full_pages =
     \<lparr>HTTPRequest = (\<lambda>url. (Some \<lparr>Data = ''{}''\<rparr>, None)),
      Unmarshal = (\<lambda>d. (\<lparr>ResultCount = 20, Results = replicate 20 ann_smith\<rparr>, None)),
      Disambiguation = (\<lambda>label. None),
      List = (\<lambda>label. None)\<rparr>"

definition host_bad_json :: host where
  "host_bad_json =
     \<lparr>HTTPRequest = (\<lambda>url. (Some \<lparr>Data = ''<html>''\<rparr>, None)),
      Unmarshal = (\<lambda>d. (\<lparr>ResultCount = 0, Results = []\<rparr>, Some ''invalid character'')),
      Disambiguation = (\<lambda>label. None),
      List = (\<lambda>label. None)\<rparr>"

definition submit_smith :: form_use where
  "submit_smith =
     \<lparr>edits = [(Input_lastName, ''Smith'', None)], isSubmitted = True, form_err = None\<rparr>"

definition cancel_smith :: form_use where
  "cancel_smith =
     \<lparr>edits = [(Input_lastName, ''Smith'', None)], isSubmitted = False, form_err = None\<rparr>"

definition submit_cleared :: form_use where
  "submit_cleared =
     \<lparr>edits = [(Input_lastName, ''Smith'', None), (Input_firstName, ''Mary Ann'', None),
               (Input_firstName, [], None)],
      isSubmitted = True, form_err = None\<rparr>"

definition submit_mary_ann :: form_use where
  "submit_mary_ann =
     \<lparr>edits = [(Input_firstName, ''Mary Ann'', None)], isSubmitted = True, form_err = None\<rparr>"

section \<open>Properties\<close>

subsection \<open>Effects and state of the parts\<close>

lemma requests_append [simp]: "requests (fx @ fx') = requests fx @ requests fx'"
  by (induction fx rule: requests.induct) simp_all

lemma titles_append [simp]: "titles (fx @ fx') = titles fx @ titles fx'"
  by (induction fx rule: titles.induct) simp_all

lemma lists_shown_append [simp]: "lists_shown (fx @ fx') = lists_shown fx @ lists_shown fx'"
  by (induction fx rule: lists_shown.induct) simp_all

lemma Input_OnChange_skip [simp]: "skip (fst (Input_OnChange i raw err g)) = skip g"
  by (cases i) (simp_all add: set_params_def Let_def split: option.splits)

lemma Input_OnChange_requests [simp]: "requests (snd (Input_OnChange i raw err g)) = []"
  by (cases i) (simp_all add: Let_def split: option.splits)

lemma Input_OnChange_titles [simp]: "titles (snd (Input_OnChange i raw err g)) = []"
  by (cases i) (simp_all add: Let_def split: option.splits)

lemma apply_edits_Cons_fst:
  "fst (apply_edits ((i, raw, err) # es) g) = fst (apply_edits es (fst (Input_OnChange i raw err g)))"
  by (simp add: split_beta)

lemma apply_edits_Cons_snd:
  "snd (apply_edits ((i, raw, err) # es) g) =
     snd (Input_OnChange i raw err g) @ snd (apply_edits es (fst (Input_OnChange i raw err g)))"
  by (simp add: split_beta)

lemma apply_edits_skip [simp]: "skip (fst (apply_edits es g)) = skip g"
proof (induction es arbitrary: g)
  case Nil
  show ?case by simp
next
  case (Cons e es)
  obtain i raw err where e: "e = (i, raw, err)" by (cases e) auto
  show ?case unfolding e apply_edits_Cons_fst by (simp add: Cons.IH)
qed

lemma apply_edits_requests [simp]: "requests (snd (apply_edits es g)) = []"
proof (induction es arbitrary: g)
  case Nil
  show ?case by simp
next
  case (Cons e es)
  obtain i raw err where e: "e = (i, raw, err)" by (cases e) auto
  show ?case unfolding e apply_edits_Cons_snd by (simp add: Cons.IH)
qed

lemma apply_edits_titles [simp]: "titles (snd (apply_edits es g)) = []"
proof (induction es arbitrary: g)
  case Nil
  show ?case by simp
next
  case (Cons e es)
  obtain i raw err where e: "e = (i, raw, err)" by (cases e) auto
  show ?case unfolding e apply_edits_Cons_snd by (simp add: Cons.IH)
qed

lemma Form_fst: "fst (Form u g) = fst (apply_edits (edits u) g)"
  by (simp add: Form_def split_beta)

lemma Form_snd: "snd (Form u g) = Whisper_Form # snd (apply_edits (edits u) g)"
  by (simp add: Form_def split_beta)

lemma Form_skip [simp]: "skip (fst (Form u g)) = skip g"
  by (simp add: Form_fst)

lemma Form_requests [simp]: "requests (snd (Form u g)) = []"
  by (simp add: Form_snd)

lemma Form_titles [simp]: "titles (snd (Form u g)) = []"
  by (simp add: Form_snd)

lemma ClearSearchParams_skip [simp]: "skip (ClearSearchParams g) = skip g"
  by (simp add: ClearSearchParams_def)

lemma ClearSearchParams_searchParams [simp]:
  "searchParams (ClearSearchParams g) = zero_SearchParams"
  by (simp add: ClearSearchParams_def zero_SearchParams_def)

lemma GetLookupResults_requests [simp]:
  "requests (snd (GetLookupResults h p lim sk)) = [lookup_url p lim sk]"
  by (simp add: GetLookupResults_def Let_def split: prod.splits option.splits)

lemma GetLookupResults_titles [simp]: "titles (snd (GetLookupResults h p lim sk)) = []"
  by (simp add: GetLookupResults_def Let_def split: prod.splits option.splits)

lemma GetLookupResults_result:
  "fst (GetLookupResults h p lim sk) =
     map_option (\<lambda>r. fst (Unmarshal h (Data r))) (fst (HTTPRequest h (lookup_url p lim sk)))"
  by (simp add: GetLookupResults_def Let_def split: prod.splits option.splits)

lemma GetLookupResults_None [simp]:
  "(fst (GetLookupResults h p lim sk) = None) = (\<not> responds h (lookup_url p lim sk))"
  by (simp add: GetLookupResults_result responds_def)

lemma run_requests: "requests (effects_of (run h u g)) = [lookup_url (sent_params u g) limit 0]"
proof -
  obtain g' fx where f: "Form u (ClearSearchParams g) = (g', fx)" by (cases "Form u (ClearSearchParams g)")
  obtain r fx' where l: "GetLookupResults h (RemoveSpaces (searchParams g')) limit 0 = (r, fx')"
    by (cases "GetLookupResults h (RemoveSpaces (searchParams g')) limit 0")
  have a: "requests fx = []" using Form_requests [of u "ClearSearchParams g"] by (simp add: f)
  have b: "requests fx' = [lookup_url (RemoveSpaces (searchParams g')) limit 0]"
    using GetLookupResults_requests [of h "RemoveSpaces (searchParams g')" limit 0] by (simp add: l)
  show ?thesis
    by (cases r) (simp_all add: run_def effects_of_def sent_params_def f l a b Let_def)
qed

lemma run_skip: "skip (globals_of (run h u g)) = skip g"
proof -
  obtain g' fx where f: "Form u (ClearSearchParams g) = (g', fx)" by (cases "Form u (ClearSearchParams g)")
  obtain r fx' where l: "GetLookupResults h (RemoveSpaces (searchParams g')) limit 0 = (r, fx')"
    by (cases "GetLookupResults h (RemoveSpaces (searchParams g')) limit 0")
  have a: "skip g' = skip g" using Form_skip [of u "ClearSearchParams g"] by (simp add: f)
  show ?thesis
    by (cases r) (simp_all add: run_def globals_of_def f l a Let_def)
qed

lemma run_status:
  "fst (run h u g) = (if responds h (lookup_url (sent_params u g) limit 0) then Completed else Panicked)"
proof -
  obtain g' fx where f: "Form u (ClearSearchParams g) = (g', fx)" by (cases "Form u (ClearSearchParams g)")
  obtain r fx' where l: "GetLookupResults h (RemoveSpaces (searchParams g')) limit 0 = (r, fx')"
    by (cases "GetLookupResults h (RemoveSpaces (searchParams g')) limit 0")
  have a: "(r = None) = (\<not> responds h (lookup_url (RemoveSpaces (searchParams g')) limit 0))"
    using GetLookupResults_None [of h "RemoveSpaces (searchParams g')" limit 0] by (simp add: l)
  show ?thesis using a
    by (cases r) (simp_all add: run_def sent_params_def f l Let_def)
qed

lemma run_titles:
  "titles (effects_of (run h u g)) =
     (if isSubmitted u \<and> responds h (lookup_url (sent_params u g) limit 0)
      then [results_label (searchParams (fst (Form u (ClearSearchParams g))))] else [])"
proof -
  obtain g' fx where f: "Form u (ClearSearchParams g) = (g', fx)" by (cases "Form u (ClearSearchParams g)")
  obtain r fx' where l: "GetLookupResults h (RemoveSpaces (searchParams g')) limit 0 = (r, fx')"
    by (cases "GetLookupResults h (RemoveSpaces (searchParams g')) limit 0")
  have a: "titles fx = []" using Form_titles [of u "ClearSearchParams g"] by (simp add: f)
  have b: "titles fx' = []"
    using GetLookupResults_titles [of h "RemoveSpaces (searchParams g')" limit 0] by (simp add: l)
  have c: "(r = None) = (\<not> responds h (lookup_url (RemoveSpaces (searchParams g')) limit 0))"
    using GetLookupResults_None [of h "RemoveSpaces (searchParams g')" limit 0] by (simp add: l)
  show ?thesis using c
    by (cases r) (simp_all add: run_def effects_of_def sent_params_def f l a b Let_def)
qed

lemma apply_edits_frame: "(fst (apply_edits es g))\<lparr>searchParams := p\<rparr> = g\<lparr>searchParams := p\<rparr>"
proof (induction es arbitrary: g)
  case Nil
  show ?case by simp
next
  case (Cons e es)
  obtain i raw err where e: "e = (i, raw, err)" by (cases e) auto
  have "(fst (Input_OnChange i raw err g))\<lparr>searchParams := p\<rparr> = g\<lparr>searchParams := p\<rparr>"
    by (cases i) (simp_all add: set_params_def Let_def split: option.splits)
  then show ?case unfolding e apply_edits_Cons_fst by (simp add: Cons.IH)
qed

lemma ClearSearchParams_eq: "ClearSearchParams g = g\<lparr>searchParams := zero_SearchParams\<rparr>"
  by (simp add: ClearSearchParams_def zero_SearchParams_def)

lemma run_globals:
  "fst (run h u g) = Completed \<Longrightarrow> globals_of (run h u g) = g\<lparr>searchParams := zero_SearchParams\<rparr>"
proof -
  obtain g' fx where f: "Form u (ClearSearchParams g) = (g', fx)" by (cases "Form u (ClearSearchParams g)")
  obtain r fx' where l: "GetLookupResults h (RemoveSpaces (searchParams g')) limit 0 = (r, fx')"
    by (cases "GetLookupResults h (RemoveSpaces (searchParams g')) limit 0")
  have g': "g' = fst (apply_edits (edits u) (ClearSearchParams g))"
    using f Form_fst [of u "ClearSearchParams g"] by simp
  have "g'\<lparr>searchParams := zero_SearchParams\<rparr> = g\<lparr>searchParams := zero_SearchParams\<rparr>"
    unfolding g' apply_edits_frame by (simp add: ClearSearchParams_eq)
  then have a: "ClearSearchParams g' = g\<lparr>searchParams := zero_SearchParams\<rparr>"
    by (simp add: ClearSearchParams_eq)
  assume "fst (run h u g) = Completed"
  then show ?thesis
    by (cases r) (simp_all add: run_def globals_of_def f l a Let_def)
qed

lemma next_OnChange_globals: "globals_of (next_OnChange h g) = g\<lparr>skip := skip g + limit\<rparr>"
  by (simp add: next_OnChange_def globals_of_def Let_def split: prod.splits option.splits)

lemma prev_OnChange_globals:
  "globals_of (prev_OnChange h g) = (if skip g \<noteq> 0 then g\<lparr>skip := skip g - limit\<rparr> else g)"
  by (simp add: prev_OnChange_def globals_of_def Let_def split: prod.splits option.splits)

lemma next_OnChange_requests:
  "requests (effects_of (next_OnChange h g)) = [lookup_url (searchParams g) limit (skip g + limit)]"
proof -
  obtain r fx where l: "GetLookupResults h (searchParams g) limit (skip g + limit) = (r, fx)"
    by (cases "GetLookupResults h (searchParams g) limit (skip g + limit)")
  have a: "requests fx = [lookup_url (searchParams g) limit (skip g + limit)]"
    using GetLookupResults_requests [of h "searchParams g" limit "skip g + limit"] by (simp add: l)
  show ?thesis
    by (cases r) (simp_all add: next_OnChange_def effects_of_def l a Let_def split: option.splits)
qed

lemma next_OnChange_status:
  "fst (next_OnChange h g) =
     (if responds h (lookup_url (searchParams g) limit (skip g + limit)) then Completed else Panicked)"
proof -
  obtain r fx where l: "GetLookupResults h (searchParams g) limit (skip g + limit) = (r, fx)"
    by (cases "GetLookupResults h (searchParams g) limit (skip g + limit)")
  have a: "(r = None) = (\<not> responds h (lookup_url (searchParams g) limit (skip g + limit)))"
    using GetLookupResults_None [of h "searchParams g" limit "skip g + limit"] by (simp add: l)
  show ?thesis using a
    by (cases r) (simp_all add: next_OnChange_def l Let_def)
qed

lemma next_OnChange_titles:
  "titles (effects_of (next_OnChange h g)) =
     (if responds h (lookup_url (searchParams g) limit (skip g + limit))
      then [results_label (searchParams g)] else [])"
proof -
  obtain r fx where l: "GetLookupResults h (searchParams g) limit (skip g + limit) = (r, fx)"
    by (cases "GetLookupResults h (searchParams g) limit (skip g + limit)")
  have a: "(r = None) = (\<not> responds h (lookup_url (searchParams g) limit (skip g + limit)))"
    using GetLookupResults_None [of h "searchParams g" limit "skip g + limit"] by (simp add: l)
  have b: "titles fx = []"
    using GetLookupResults_titles [of h "searchParams g" limit "skip g + limit"] by (simp add: l)
  show ?thesis using a
    by (cases r) (simp_all add: next_OnChange_def effects_of_def l b Let_def split: option.splits)
qed

lemma prev_OnChange_requests:
  "requests (effects_of (prev_OnChange h g)) =
     [lookup_url (searchParams g) limit (if skip g \<noteq> 0 then skip g - limit else skip g)]"
proof (cases "skip g = 0")
  case True
  obtain r fx where l: "GetLookupResults h (searchParams g) limit 0 = (r, fx)"
    by (cases "GetLookupResults h (searchParams g) limit 0")
  have a: "requests fx = [lookup_url (searchParams g) limit 0]"
    using GetLookupResults_requests [of h "searchParams g" limit 0] by (simp add: l)
  show ?thesis
    by (cases r) (simp_all add: prev_OnChange_def effects_of_def True l a Let_def split: option.splits)
next
  case False
  obtain r fx where l: "GetLookupResults h (searchParams g) limit (skip g - limit) = (r, fx)"
    by (cases "GetLookupResults h (searchParams g) limit (skip g - limit)")
  have a: "requests fx = [lookup_url (searchParams g) limit (skip g - limit)]"
    using GetLookupResults_requests [of h "searchParams g" limit "skip g - limit"] by (simp add: l)
  show ?thesis
    by (cases r) (simp_all add: prev_OnChange_def effects_of_def False l a Let_def split: option.splits)
qed

lemma prev_OnChange_titles:
  "titles (effects_of (prev_OnChange h g)) =
     (if responds h (lookup_url (searchParams g) limit (if skip g \<noteq> 0 then skip g - limit else skip g))
      then [results_label (searchParams g)] else [])"
proof (cases "skip g = 0")
  case True
  obtain r fx where l: "GetLookupResults h (searchParams g) limit 0 = (r, fx)"
    by (cases "GetLookupResults h (searchParams g) limit 0")
  have a: "(r = None) = (\<not> responds h (lookup_url (searchParams g) limit 0))"
    using GetLookupResults_None [of h "searchParams g" limit 0] by (simp add: l)
  have b: "titles fx = []"
    using GetLookupResults_titles [of h "searchParams g" limit 0] by (simp add: l)
  show ?thesis using a
    by (cases r) (simp_all add: prev_OnChange_def effects_of_def True l b Let_def split: option.splits)
next
  case False
  obtain r fx where l: "GetLookupResults h (searchParams g) limit (skip g - limit) = (r, fx)"
    by (cases "GetLookupResults h (searchParams g) limit (skip g - limit)")
  have a: "(r = None) = (\<not> responds h (lookup_url (searchParams g) limit (skip g - limit)))"
    using GetLookupResults_None [of h "searchParams g" limit "skip g - limit"] by (simp add: l)
  have b: "titles fx = []"
    using GetLookupResults_titles [of h "searchParams g" limit "skip g - limit"] by (simp add: l)
  show ?thesis using a
    by (cases r) (simp_all add: prev_OnChange_def effects_of_def False l b Let_def split: option.splits)
qed

lemma host_full_pages_responds: "responds host_full_pages url"
  by (simp add: responds_def host_full_pages_def)

lemma effects_of_triple [simp]: "effects_of (st, g, fx) = fx"
  by (simp add: effects_of_def)

lemma globals_of_triple [simp]: "globals_of (st, g, fx) = g"
  by (simp add: globals_of_def)

subsection \<open>Keys of the choice list, arithmetic of the offset\<close>

lemma digit_nth: "k < 10 \<Longrightarrow> ''0123456789'' ! k \<in> digit_chars"
  unfolding digit_chars_def by (rule nth_mem) simp

lemma digits_chars: "set (digits n) \<subseteq> digit_chars"
proof (induction n rule: digits.induct)
  case (1 n)
  show ?case
  proof (cases "n < 10")
    case True
    have d: "digits n = [''0123456789'' ! nat n]"
      by (subst digits.simps) (simp only: True if_True)
    have "''0123456789'' ! nat n \<in> digit_chars" using True by (intro digit_nth) simp
    then show ?thesis unfolding d by simp
  next
    case False
    have d: "digits n = digits (n div 10) @ [''0123456789'' ! nat (n mod 10)]"
      by (subst digits.simps) (simp only: False if_False)
    have "''0123456789'' ! nat (n mod 10) \<in> digit_chars" by (intro digit_nth) simp
    moreover have "set (digits (n div 10)) \<subseteq> digit_chars" using "1.IH" False by simp
    ultimately show ?thesis unfolding d by simp
  qed
qed

lemma Sprint_int_chars: "set (Sprint_int n) \<subseteq> insert CHR ''-'' digit_chars"
  using digits_chars [of "sint n"] digits_chars [of "- sint n"]
  by (auto simp: Sprint_int_def)

lemma Sprint_int_not_next [simp]: "Sprint_int n \<noteq> ''next''" "''next'' \<noteq> Sprint_int n"
proof -
  have "CHR ''n'' \<notin> set (Sprint_int n)"
    using Sprint_int_chars [of n] by (auto simp: digit_chars_def)
  moreover have "CHR ''n'' \<in> set ''next''" by simp
  ultimately show "Sprint_int n \<noteq> ''next''" by metis
  then show "''next'' \<noteq> Sprint_int n" by (rule not_sym)
qed

lemma Sprint_int_not_prev [simp]: "Sprint_int n \<noteq> ''prev''" "''prev'' \<noteq> Sprint_int n"
proof -
  have "CHR ''p'' \<notin> set (Sprint_int n)"
    using Sprint_int_chars [of n] by (auto simp: digit_chars_def)
  moreover have "CHR ''p'' \<in> set ''prev''" by simp
  ultimately show "Sprint_int n \<noteq> ''prev''" by metis
  then show "''prev'' \<noteq> Sprint_int n" by (rule not_sym)
qed

lemma Sprint_int_no_space: "CHR '' '' \<notin> set (Sprint_int n)"
  using Sprint_int_chars [of n] by (auto simp: digit_chars_def)

lemma fold_upd_other:
  "k \<notin> key ` set js \<Longrightarrow> fold (\<lambda>i m. m(key i \<mapsto> val i)) js m k = m k"
  by (induction js arbitrary: m) auto

lemma item_keys_next:
  "fold (\<lambda>i m. m(Sprint_int (word_of_nat i) \<mapsto> item_option i (results ! i)))
     [0 ..< length results] Map.empty ''next'' = None"
  by (subst fold_upd_other) auto

lemma item_keys_prev:
  "fold (\<lambda>i m. m(Sprint_int (word_of_nat i) \<mapsto> item_option i (results ! i)))
     [0 ..< length results] Map.empty ''prev'' = None"
  by (subst fold_upd_other) auto

lemma full_page_iff: "(int (length results) = sint limit) = (length results = 20)"
  by (auto simp: limit_def)

lemma CreateDisambiguationElements_next:
  "CreateDisambiguationElements results ''next'' =
     (if length results = 20 then Some (next_option results) else None)"
  by (simp add: CreateDisambiguationElements_def Let_def full_page_iff item_keys_next)

lemma CreateDisambiguationElements_prev:
  "CreateDisambiguationElements results ''prev'' = Some (prev_option results)"
  by (simp add: CreateDisambiguationElements_def Let_def)

lemma sint_minus_limit:
  assumes "0 \<le> sint (s :: go_int)" "s \<noteq> 0" "20 dvd sint s"
  shows "0 \<le> sint (s - limit)"
proof -
  have "sint s \<noteq> 0" using assms(2) by (simp add: signed_eq_0_iff)
  then have ge: "20 \<le> sint s" using assms(1,3) by (auto elim: dvdE)
  have lt: "sint s < 2 ^ 63" using sint_lt [of s] by simp
  have "sint (s - 20) = signed_take_bit 63 (sint s - 20)"
    by (simp add: sint_word_ariths)
  also have "\<dots> = sint s - 20"
    using ge lt by (simp add: signed_take_bit_int_eq_self)
  finally show ?thesis using ge by (simp add: limit_def)
qed

lemma plus_limit_nonzero:
  assumes "0 \<le> sint (s :: go_int)"
  shows "s + limit \<noteq> 0"
proof
  assume "s + limit = 0"
  then have "s = - 20" by (simp add: limit_def add_eq_0_iff2)
  then have "sint s = - 20" by simp
  then show False using assms by simp
qed

lemma of_char_digit: "k < 10 \<Longrightarrow> (of_char (''0123456789'' ! k) :: int) = 48 + int k"
proof -
  assume "k < 10"
  then have "k \<in> {0, 1, 2, 3, 4, 5, 6, 7, 8, 9}" by auto
  then show ?thesis by auto
qed

lemma digits_value_snoc: "digits_value (s @ [c]) = 10 * digits_value s + (of_char c - 48)"
  by (simp add: digits_value_def)

lemma digits_value_digits: "0 \<le> n \<Longrightarrow> digits_value (digits n) = n"
proof (induction n rule: digits.induct)
  case (1 n)
  show ?case
  proof (cases "n < 10")
    case True
    have d: "digits n = [''0123456789'' ! nat n]"
      by (subst digits.simps) (simp only: True if_True)
    have "(of_char (''0123456789'' ! nat n) :: int) = 48 + int (nat n)"
      using True by (intro of_char_digit) simp
    then show ?thesis unfolding d using "1.prems" by (simp add: digits_value_def)
  next
    case False
    have d: "digits n = digits (n div 10) @ [''0123456789'' ! nat (n mod 10)]"
      by (subst digits.simps) (simp only: False if_False)
    have c: "(of_char (''0123456789'' ! nat (n mod 10)) :: int) = 48 + int (nat (n mod 10))"
      by (intro of_char_digit) simp
    have ih: "digits_value (digits (n div 10)) = n div 10"
      using "1.IH" False "1.prems" by simp
    show ?thesis unfolding d digits_value_snoc ih c by simp
  qed
qed

lemma digits_inj: "0 \<le> n \<Longrightarrow> 0 \<le> m \<Longrightarrow> digits n = digits m \<Longrightarrow> n = m"
  by (metis digits_value_digits)

lemma sint_index: "i < 2 ^ 63 \<Longrightarrow> sint (word_of_nat i :: go_int) = int i"
proof -
  assume a: "i < 2 ^ 63"
  have "int i < 2 ^ 63" using a by (metis of_nat_less_iff of_nat_numeral of_nat_power)
  then show ?thesis by (simp add: signed_of_nat signed_take_bit_int_eq_self)
qed

lemma item_key_inj:
  assumes "i < 2 ^ 63" "j < 2 ^ 63"
    and "Sprint_int (word_of_nat i) = Sprint_int (word_of_nat j)"
  shows "i = j"
proof -
  have "digits (int i) = digits (int j)"
    using assms by (simp add: Sprint_int_def sint_index)
  then have "int i = int j" by (intro digits_inj) simp_all
  then show ?thesis by simp
qed

lemma fold_upd_at:
  "inj_on key (set js) \<Longrightarrow> distinct js \<Longrightarrow> i \<in> set js \<Longrightarrow>
     fold (\<lambda>i m. m(key i \<mapsto> val i)) js m (key i) = Some (val i)"
proof (induction js arbitrary: m)
  case Nil
  then show ?case by simp
next
  case (Cons j js)
  show ?case
  proof (cases "i = j")
    case True
    have "key j \<notin> key ` set js" using Cons.prems by (auto simp: inj_on_def)
    then have "fold (\<lambda>i m. m(key i \<mapsto> val i)) js (m(key j \<mapsto> val j)) (key j) =
                 (m(key j \<mapsto> val j)) (key j)"
      by (rule fold_upd_other)
    then show ?thesis unfolding True by (simp only: fold.simps o_apply fun_upd_same)
  next
    case False
    then show ?thesis using Cons by (auto simp: inj_on_def)
  qed
qed

lemma CreateDisambiguationElements_item:
  assumes "i < length results" "length results \<le> 2 ^ 63"
  shows "CreateDisambiguationElements results (Sprint_int (word_of_nat i)) =
           Some (item_option i (results ! i))"
proof -
  have inj: "inj_on (\<lambda>i. Sprint_int (word_of_nat i :: go_int)) (set [0 ..< length results])"
    using assms(2) by (auto simp: inj_on_def intro!: item_key_inj)
  have "fold (\<lambda>i m. m(Sprint_int (word_of_nat i) \<mapsto> item_option i (results ! i)))
          [0 ..< length results] Map.empty (Sprint_int (word_of_nat i)) =
        Some (item_option i (results ! i))"
    using inj assms(1) by (intro fold_upd_at) simp_all
  then show ?thesis
    by (simp add: CreateDisambiguationElements_def Let_def)
qed

lemma item_label_eq:
  "item_label item =
     (if Basic.Organization (Basic item) \<noteq> []
      then ''Organization: '' @ Basic.Organization (Basic item)
      else if Basic.FirstName (Basic item) \<noteq> []
      then ''Name: '' @ Basic.FirstName (Basic item) @ '' '' @ Basic.LastName (Basic item)
      else [])"
  by (simp add: item_label_def Let_def)

subsection \<open>The offset along a session\<close>

lemma sint_plus_limit:
  assumes "0 \<le> sint (s :: go_int)" "sint s + 20 < 2 ^ 63"
  shows "sint (s + limit) = sint s + 20"
proof -
  have "sint (s + 20) = signed_take_bit 63 (sint s + 20)"
    by (simp add: sint_word_ariths)
  also have "\<dots> = sint s + 20"
    using assms by (simp add: signed_take_bit_int_eq_self)
  finally show ?thesis by (simp add: limit_def)
qed

lemma sint_minus_limit_eq:
  assumes "20 \<le> sint (s :: go_int)"
  shows "sint (s - limit) = sint s - 20"
proof -
  have lt: "sint s < 2 ^ 63" using sint_lt [of s] by simp
  have "sint (s - 20) = signed_take_bit 63 (sint s - 20)"
    by (simp add: sint_word_ariths)
  also have "\<dots> = sint s - 20"
    using assms lt by (simp add: signed_take_bit_int_eq_self)
  finally show ?thesis by (simp add: limit_def)
qed

subsection \<open>The form inputs and the query that is sent\<close>

lemma Input_OnChange_wildcard:
  "i \<noteq> Input_number \<Longrightarrow>
     field_of i (searchParams (fst (Input_OnChange i raw err g))) = raw @ ''*''"
  by (cases i) (simp_all add: set_params_def Let_def split: option.splits)

lemma Input_OnChange_other:
  "i \<noteq> j \<Longrightarrow>
     field_of i (searchParams (fst (Input_OnChange j raw err g))) = field_of i (searchParams g)"
  by (cases i; cases j) (simp_all add: set_params_def Let_def split: option.splits)

lemma apply_edits_keeps_nonempty:
  "i \<noteq> Input_number \<Longrightarrow> i \<in> fst ` set es \<or> field_of i (searchParams g) \<noteq> [] \<Longrightarrow>
     field_of i (searchParams (fst (apply_edits es g))) \<noteq> []"
proof (induction es arbitrary: g)
  case Nil
  then show ?case by simp
next
  case (Cons e es)
  obtain j raw err where e: "e = (j, raw, err)" by (cases e) auto
  show ?case
  proof (cases "j = i")
    case True
    have "field_of i (searchParams (fst (Input_OnChange j raw err g))) \<noteq> []"
      using Cons.prems(1) by (simp add: True Input_OnChange_wildcard)
    then show ?thesis unfolding e apply_edits_Cons_fst using Cons.prems(1) by (intro Cons.IH) simp_all
  next
    case False
    have "field_of i (searchParams (fst (Input_OnChange j raw err g))) = field_of i (searchParams g)"
      using False by (intro Input_OnChange_other) simp
    moreover have "i \<in> fst ` set es \<or> field_of i (searchParams g) \<noteq> []"
      using Cons.prems(2) False by (auto simp: e)
    ultimately show ?thesis unfolding e apply_edits_Cons_fst using Cons.prems(1)
      by (intro Cons.IH) auto
  qed
qed

lemma apply_edits_append_fst:
  "fst (apply_edits (es @ es') g) = fst (apply_edits es' (fst (apply_edits es g)))"
proof (induction es arbitrary: g)
  case Nil
  show ?case by simp
next
  case (Cons e es)
  obtain j raw err where e: "e = (j, raw, err)" by (cases e) auto
  show ?case unfolding e append_Cons apply_edits_Cons_fst by (rule Cons.IH)
qed

lemma ReplaceAll_no_space: "CHR '' '' \<notin> set (ReplaceAll_space_plus s)"
  by (induction s) (simp_all add: ReplaceAll_space_plus_def)

lemma ReplaceAll_wildcard: "ReplaceAll_space_plus ''*'' = ''*''"
  by (simp add: ReplaceAll_space_plus_def)

lemma field_of_RemoveSpaces: "field_of i (RemoveSpaces p) = ReplaceAll_space_plus (field_of i p)"
  by (cases i) (simp_all add: RemoveSpaces_def)

lemma sent_params_no_space: "CHR '' '' \<notin> set (field_of i (sent_params u g))"
  by (simp add: sent_params_def field_of_RemoveSpaces ReplaceAll_no_space)

lemma lookup_url_no_space:
  assumes "\<And>i. CHR '' '' \<notin> set (field_of i p)"
  shows "CHR '' '' \<notin> set (lookup_url p lim sk)"
  using assms [of Input_number] assms [of Input_firstName] assms [of Input_lastName]
    assms [of Input_organization] assms [of Input_city] assms [of Input_state]
  by (simp add: lookup_url_def Sprint_int_no_space)

lemma cleared_field_sent:
  assumes "i \<noteq> Input_number" "edits u = es @ [(i, [], err)]"
  shows "field_of i (sent_params u g) = ''*''"
proof -
  have "field_of i (searchParams (fst (Form u (ClearSearchParams g)))) = ''*''"
    using assms(1)
    by (simp add: Form_fst assms(2) apply_edits_append_fst apply_edits_Cons_fst
        Input_OnChange_wildcard)
  then show ?thesis by (simp add: sent_params_def field_of_RemoveSpaces ReplaceAll_wildcard)
qed

lemma Input_number_warning:
  "(snd (Input_OnChange Input_number number err g) \<noteq> []) = (length number \<noteq> 10 \<and> length number \<noteq> 0)"
  by (simp split: option.splits)

lemma Input_number_stored:
  "SearchParams.Number (searchParams (fst (Input_OnChange Input_number number err g))) =
     (if length number \<noteq> 10 \<and> length number \<noteq> 0 \<and> err \<noteq> None
      then SearchParams.Number (searchParams g) else number)"
  by (simp add: set_params_def split: option.splits)

subsection \<open>The choice lists shown, concrete sessions\<close>

lemma GetLookupResults_lists [simp]: "lists_shown (snd (GetLookupResults h p lim sk)) = []"
  by (simp add: GetLookupResults_def Let_def split: prod.splits option.splits)

lemma GetLookupResults_Some:
  "fst (GetLookupResults h p lim sk) = Some res \<Longrightarrow> Results res = page_of h (lookup_url p lim sk)"
  by (auto simp: GetLookupResults_result page_of_def)

lemma Input_OnChange_lists [simp]: "lists_shown (snd (Input_OnChange i raw err g)) = []"
  by (cases i) (simp_all add: Let_def split: option.splits)

lemma apply_edits_lists [simp]: "lists_shown (snd (apply_edits es g)) = []"
proof (induction es arbitrary: g)
  case Nil
  show ?case by simp
next
  case (Cons e es)
  obtain i raw err where e: "e = (i, raw, err)" by (cases e) auto
  show ?case unfolding e apply_edits_Cons_snd by (simp add: Cons.IH)
qed

lemma Form_lists [simp]: "lists_shown (snd (Form u g)) = []"
  by (simp add: Form_snd)

lemma run_lists:
  "lists_shown (effects_of (run h u g)) =
     (if isSubmitted u \<and> responds h (lookup_url (sent_params u g) limit 0)
      then [CreateDisambiguationElements (page_of h (lookup_url (sent_params u g) limit 0))]
      else [])"
proof -
  obtain g' fx where f: "Form u (ClearSearchParams g) = (g', fx)" by (cases "Form u (ClearSearchParams g)")
  obtain r fx' where l: "GetLookupResults h (RemoveSpaces (searchParams g')) limit 0 = (r, fx')"
    by (cases "GetLookupResults h (RemoveSpaces (searchParams g')) limit 0")
  have a: "lists_shown fx = []" using Form_lists [of u "ClearSearchParams g"] by (simp add: f)
  have b: "lists_shown fx' = []"
    using GetLookupResults_lists [of h "RemoveSpaces (searchParams g')" limit 0] by (simp add: l)
  have c: "(r = None) = (\<not> responds h (lookup_url (RemoveSpaces (searchParams g')) limit 0))"
    using GetLookupResults_None [of h "RemoveSpaces (searchParams g')" limit 0] by (simp add: l)
  have d: "r = Some res \<Longrightarrow> Results res = page_of h (lookup_url (RemoveSpaces (searchParams g')) limit 0)" for res
    using GetLookupResults_Some [of h "RemoveSpaces (searchParams g')" limit 0 res] by (simp add: l)
  show ?thesis using c d
    by (cases r) (simp_all add: run_def effects_of_def sent_params_def f l a b Let_def)
qed

lemma next_OnChange_lists:
  "lists_shown (effects_of (next_OnChange h g)) =
     (if responds h (lookup_url (searchParams g) limit (skip g + limit))
      then [CreateDisambiguationElements
              (page_of h (lookup_url (searchParams g) limit (skip g + limit)))]
      else [])"
proof -
  obtain r fx where l: "GetLookupResults h (searchParams g) limit (skip g + limit) = (r, fx)"
    by (cases "GetLookupResults h (searchParams g) limit (skip g + limit)")
  have a: "(r = None) = (\<not> responds h (lookup_url (searchParams g) limit (skip g + limit)))"
    using GetLookupResults_None [of h "searchParams g" limit "skip g + limit"] by (simp add: l)
  have b: "lists_shown fx = []"
    using GetLookupResults_lists [of h "searchParams g" limit "skip g + limit"] by (simp add: l)
  have d: "r = Some res \<Longrightarrow> Results res = page_of h (lookup_url (searchParams g) limit (skip g + limit))" for res
    using GetLookupResults_Some [of h "searchParams g" limit "skip g + limit" res] by (simp add: l)
  show ?thesis using a d
    by (cases r) (simp_all add: next_OnChange_def effects_of_def l b Let_def split: option.splits)
qed

lemma host_full_pages_page: "page_of host_full_pages url = replicate 20 ann_smith"
  by (simp add: page_of_def host_full_pages_def)

lemma full_page_offers_next:
  "CreateDisambiguationElements (replicate 20 ann_smith) ''next'' =
     Some (next_option (replicate 20 ann_smith))"
  by (simp add: CreateDisambiguationElements_next)

lemma sent_smith:
  "sent_params submit_smith g = zero_SearchParams\<lparr>LastName := ''Smith*''\<rparr>"
  by (simp add: sent_params_def submit_smith_def Form_fst apply_edits_Cons_fst RemoveSpaces_def
      ReplaceAll_space_plus_def set_params_def zero_SearchParams_def)

lemma label_zero: "results_label zero_SearchParams = ''LookupNPI Results for:      ''"
  by (simp add: results_label_def zero_SearchParams_def)

lemma url_zero_20:
  "lookup_url zero_SearchParams limit 20 =
     ''https://npiregistry.cms.hhs.gov/api/?number=&enumeration_type=&taxonomy_description=&first_name=&last_name=&organization_name=&address_purpose=&city=&state=&postal_code=&country_code=&limit=20&skip=20&version=2.0''"
  by (simp add: lookup_url_def zero_SearchParams_def limit_def Sprint_int_def digits.simps)

lemma url_smith_0:
  "lookup_url (zero_SearchParams\<lparr>LastName := ''Smith*''\<rparr>) limit 0 =
     ''https://npiregistry.cms.hhs.gov/api/?number=&enumeration_type=&taxonomy_description=&first_name=&last_name=Smith*&organization_name=&address_purpose=&city=&state=&postal_code=&country_code=&limit=20&skip=0&version=2.0''"
  by (simp add: lookup_url_def zero_SearchParams_def limit_def Sprint_int_def digits.simps)

lemma url_smith_20:
  "lookup_url (zero_SearchParams\<lparr>LastName := ''Smith*''\<rparr>) limit 20 =
     ''https://npiregistry.cms.hhs.gov/api/?number=&enumeration_type=&taxonomy_description=&first_name=&last_name=Smith*&organization_name=&address_purpose=&city=&state=&postal_code=&country_code=&limit=20&skip=20&version=2.0''"
  by (simp add: lookup_url_def zero_SearchParams_def limit_def Sprint_int_def digits.simps)

subsection \<open>The query after \<open>run\<close>, the log of the gateway\<close>

lemma run_searchParams_eq:
  "searchParams (globals_of (run h u g)) =
     (if fst (run h u g) = Completed then zero_SearchParams
      else searchParams (fst (Form u (ClearSearchParams g))))"
proof -
  obtain g' fx where f: "Form u (ClearSearchParams g) = (g', fx)" by (cases "Form u (ClearSearchParams g)")
  obtain r fx' where l: "GetLookupResults h (RemoveSpaces (searchParams g')) limit 0 = (r, fx')"
    by (cases "GetLookupResults h (RemoveSpaces (searchParams g')) limit 0")
  show ?thesis
    by (cases r) (simp_all add: run_def globals_of_def f l Let_def)
qed

lemma GetLookupResults_transport_log:
  "(Log_Error ''Lookup failed'' \<in> set (snd (GetLookupResults h p lim sk))) =
     (snd (HTTPRequest h (lookup_url p lim sk)) \<noteq> None)"
  by (auto simp: GetLookupResults_def Let_def split: prod.splits option.splits)

lemma GetLookupResults_decode_log:
  "(Log_Error ''JSON Unmarshal failed'' \<in> set (snd (GetLookupResults h p lim sk))) =
     (case fst (HTTPRequest h (lookup_url p lim sk)) of
        None \<Rightarrow> False
      | Some r \<Rightarrow> snd (Unmarshal h (Data r)) \<noteq> None)"
  by (auto simp: GetLookupResults_def Let_def split: prod.splits option.splits)

subsection \<open>Sessions\<close>

lemma run_to_list_effects: "effects_of (run_to_list h u g) = effects_of (run h u g)"
  by (simp add: run_def run_to_list_def effects_of_def Let_def split: prod.splits option.splits)

lemma run_to_list_status: "fst (run_to_list h u g) = fst (run h u g)"
  by (simp add: run_def run_to_list_def Let_def split: prod.splits option.splits)

lemma run_to_list_globals:
  "globals_of (run_to_list h u g) = fst (Form u (ClearSearchParams g))"
  by (simp add: run_to_list_def globals_of_def Let_def split: prod.splits option.splits)

lemma run_after_list:
  "globals_of (run h u g) =
     (if fst (run_to_list h u g) = Completed then ClearSearchParams (globals_of (run_to_list h u g))
      else globals_of (run_to_list h u g))"
  by (simp add: run_def run_to_list_def globals_of_def Let_def split: prod.splits option.splits)

lemma run_to_list_skip: "skip (globals_of (run_to_list h u g)) = skip g"
  by (simp add: run_to_list_globals)

lemma put_on_screen_status: "fst (put_on_screen who s r) = fst r"
  by (simp add: put_on_screen_def)

lemma put_on_screen_session:
  "globals_of (put_on_screen who s r) =
     s\<lparr>vars := globals_of r,
       on_screen := on_screen s @ map (Pair who) (lists_shown (effects_of r))\<rparr>"
  by (simp add: put_on_screen_def)

lemma put_on_screen_effects: "effects_of (put_on_screen who s r) = effects_of r"
  by (simp add: put_on_screen_def)

lemma exec_Cons_globals:
  "globals_of (exec h (e # es) s) =
     (if fst (step h e s) = Panicked then globals_of (step h e s)
      else globals_of (exec h es (globals_of (step h e s))))"
  by (cases "step h e s" rule: prod_cases3; cases "fst (step h e s)")
     (simp_all add: globals_of_def split_beta)

lemma exec_Cons_effects:
  "effects_of (exec h (e # es) s) =
     (if fst (step h e s) = Panicked then effects_of (step h e s)
      else effects_of (step h e s) @ effects_of (exec h es (globals_of (step h e s))))"
  by (cases "step h e s" rule: prod_cases3; cases "fst (step h e s)")
     (simp_all add: globals_of_def effects_of_def split_beta)

declare exec.simps(2) [simp del]

lemma form_smith:
  "fst (Form submit_smith (ClearSearchParams g)) =
     g\<lparr>searchParams := zero_SearchParams\<lparr>LastName := ''Smith*''\<rparr>\<rparr>"
  by (simp add: submit_smith_def Form_fst apply_edits_Cons_fst set_params_def
      ClearSearchParams_def zero_SearchParams_def)

lemma next_option_OnChange: "OnChange (next_option results) = Go_next"
  by (simp add: next_option_def)

lemma prev_option_OnChange: "OnChange (prev_option results) = Go_prev"
  by (simp add: prev_option_def)

lemmas session_eval = exec_Cons_effects exec_Cons_globals
  put_on_screen_status put_on_screen_session put_on_screen_effects
  run_to_list_effects run_to_list_status run_to_list_globals
  run_status run_globals run_requests run_titles run_lists
  next_OnChange_status next_OnChange_globals next_OnChange_requests next_OnChange_titles
  next_OnChange_lists host_full_pages_responds host_full_pages_page full_page_offers_next
  next_option_OnChange init_session_def

lemma call_OnChange_offset_ok:
  assumes "offset_ok g n" "20 * (int n + 1) < 2 ^ 63"
  shows "offset_ok (globals_of (call_OnChange h c g)) (Suc n)"
proof (cases c)
  case (Show_List item)
  then show ?thesis using assms(1) by (simp add: offset_ok_def Let_def)
next
  case Go_next
  have "sint (skip g + limit) = sint (skip g) + 20"
    using assms by (intro sint_plus_limit) (simp_all add: offset_ok_def)
  then show ?thesis using assms(1) by (simp add: Go_next next_OnChange_globals offset_ok_def)
next
  case Go_prev
  show ?thesis
  proof (cases "skip g = 0")
    case True
    then show ?thesis by (simp add: Go_prev prev_OnChange_globals offset_ok_def)
  next
    case False
    have "sint (skip g) \<noteq> 0" using False by (simp add: signed_eq_0_iff)
    then have ge: "20 \<le> sint (skip g)" using assms(1) by (auto simp: offset_ok_def elim: dvdE)
    have "sint (skip g - limit) = sint (skip g) - 20" using ge by (rule sint_minus_limit_eq)
    then show ?thesis using assms(1) ge False
      by (simp add: Go_prev prev_OnChange_globals offset_ok_def)
  qed
qed

lemma offset_ok_Suc: "offset_ok g n \<Longrightarrow> offset_ok g (Suc n)"
  by (simp add: offset_ok_def)

lemma offset_ok_skip: "skip g' = skip g \<Longrightarrow> offset_ok g n \<Longrightarrow> offset_ok g' (Suc n)"
  by (simp add: offset_ok_def)

lemma step_offset_ok:
  assumes "offset_ok (vars s) n" "20 * (int n + 1) < 2 ^ 63"
  shows "offset_ok (vars (globals_of (step h e s))) (Suc n)"
proof (cases e)
  case (Searchbar str err u)
  have "skip (vars (globals_of (step h e s))) = skip (vars s)"
    by (cases err)
       (simp_all add: Searchbar put_on_screen_session run_skip run_to_list_skip)
  then show ?thesis using assms(1) by (rule offset_ok_skip)
next
  case (Select k key)
  show ?thesis
  proof (cases "k < length (on_screen s)")
    case False
    then show ?thesis using assms(1) by (simp add: Select offset_ok_Suc)
  next
    case True
    show ?thesis
    proof (cases "snd (on_screen s ! k) key")
      case None
      then show ?thesis using assms(1) True by (simp add: Select offset_ok_Suc)
    next
      case (Some choice)
      have "offset_ok (globals_of (call_OnChange h (OnChange choice) (vars s))) (Suc n)"
        using assms by (rule call_OnChange_offset_ok)
      then show ?thesis using True Some by (simp add: Select put_on_screen_session)
    qed
  qed
next
  case (Close k)
  have "skip (vars (globals_of (step h e s))) = skip (vars s)"
    by (simp add: Close)
  then show ?thesis using assms(1) by (rule offset_ok_skip)
qed

lemma exec_offset_ok:
  "offset_ok (vars s) n \<Longrightarrow> 20 * (int n + int (length es)) < 2 ^ 63 \<Longrightarrow>
     offset_ok (vars (globals_of (exec h es s))) (n + length es)"
proof (induction es arbitrary: s n)
  case Nil
  then show ?case by simp
next
  case (Cons e es)
  have st: "offset_ok (vars (globals_of (step h e s))) (Suc n)"
    using Cons.prems by (intro step_offset_ok) simp_all
  show ?case
  proof (cases "fst (step h e s) = Panicked")
    case True
    have "offset_ok (vars (globals_of (step h e s))) (n + length (e # es))"
      using st by (simp add: offset_ok_def)
    then show ?thesis by (simp add: exec_Cons_globals True)
  next
    case False
    have "offset_ok (vars (globals_of (exec h es (globals_of (step h e s))))) (Suc n + length es)"
      using st Cons.prems(2) by (intro Cons.IH) simp_all
    then show ?thesis by (simp add: exec_Cons_globals False)
  qed
qed

lemma offset_never_negative:
  assumes "20 * int (length es) < 2 ^ 63"
  shows "0 \<le> sint (skip (vars (globals_of (exec h es init_session))))"
    and "20 dvd sint (skip (vars (globals_of (exec h es init_session))))"
proof -
  have "offset_ok (vars init_session) 0"
    by (simp add: offset_ok_def init_session_def init_globals_def)
  then have "offset_ok (vars (globals_of (exec h es init_session))) (0 + length es)"
    using assms by (intro exec_offset_ok) simp_all
  then show "0 \<le> sint (skip (vars (globals_of (exec h es init_session))))"
    and "20 dvd sint (skip (vars (globals_of (exec h es init_session))))"
    by (simp_all add: offset_ok_def)
qed

lemma fold_upd_range:
  "fold (\<lambda>i m. m(key i \<mapsto> val i)) js m k = Some v \<Longrightarrow>
     m k = Some v \<or> (\<exists>i. i \<in> set js \<and> k = key i \<and> v = val i)"
proof (induction js arbitrary: m)
  case Nil
  then show ?case by simp
next
  case (Cons j js)
  have "fold (\<lambda>i m. m(key i \<mapsto> val i)) js (m(key j \<mapsto> val j)) k = Some v"
    using Cons.prems by (simp only: fold.simps o_apply)
  then have "(m(key j \<mapsto> val j)) k = Some v \<or> (\<exists>i. i \<in> set js \<and> k = key i \<and> v = val i)"
    by (rule Cons.IH)
  then show ?case by (auto split: if_splits)
qed

lemma CreateDisambiguationElements_other:
  assumes "CreateDisambiguationElements results k = Some c" "k \<noteq> ''next''" "k \<noteq> ''prev''"
  shows "\<exists>i. c = item_option i (results ! i)"
proof -
  have "fold (\<lambda>i m. m(Sprint_int (word_of_nat i) \<mapsto> item_option i (results ! i)))
          [0 ..< length results] Map.empty k = Some c"
    using assms by (simp add: CreateDisambiguationElements_def Let_def split: if_splits)
  then show ?thesis using fold_upd_range [of "\<lambda>i. Sprint_int (word_of_nat i)"
      "\<lambda>i. item_option i (results ! i)" "[0 ..< length results]" Map.empty k c] by auto
qed

lemma page_option_keys:
  assumes "CreateDisambiguationElements results k = Some c"
  shows "(OnChange c = Go_next) = (k = ''next'')" and "(OnChange c = Go_prev) = (k = ''prev'')"
proof -
  consider "k = ''next''" | "k = ''prev''" | "k \<noteq> ''next''" "k \<noteq> ''prev''" by blast
  then have "(OnChange c = Go_next) = (k = ''next'') \<and> (OnChange c = Go_prev) = (k = ''prev'')"
  proof cases
    case 1
    then show ?thesis using assms
      by (auto simp: CreateDisambiguationElements_next next_option_def split: if_splits)
  next
    case 2
    then show ?thesis using assms
      by (auto simp: CreateDisambiguationElements_prev prev_option_def)
  next
    case 3
    then obtain i where "c = item_option i (results ! i)"
      using assms CreateDisambiguationElements_other by blast
    then show ?thesis using 3 by (simp add: item_option_def)
  qed
  then show "(OnChange c = Go_next) = (k = ''next'')" and "(OnChange c = Go_prev) = (k = ''prev'')"
    by simp_all
qed

lemma submit_smith_submitted: "isSubmitted submit_smith"
  by (simp add: submit_smith_def)

lemma cancel_smith_cancelled: "\<not> isSubmitted cancel_smith"
  by (simp add: cancel_smith_def)

lemma sent_cancel_smith:
  "sent_params cancel_smith g = zero_SearchParams\<lparr>LastName := ''Smith*''\<rparr>"
  by (simp add: sent_params_def cancel_smith_def Form_fst apply_edits_Cons_fst RemoveSpaces_def
      ReplaceAll_space_plus_def set_params_def zero_SearchParams_def)

lemma label_smith_query:
  "results_label (zero_SearchParams\<lparr>LastName := ''Smith*''\<rparr>) =
     ''LookupNPI Results for:   Smith*   ''"
  by (simp add: results_label_def zero_SearchParams_def)

lemma url_zero_40:
  "lookup_url zero_SearchParams limit 40 =
     ''https://npiregistry.cms.hhs.gov/api/?number=&enumeration_type=&taxonomy_description=&first_name=&last_name=&organization_name=&address_purpose=&city=&state=&postal_code=&country_code=&limit=20&skip=40&version=2.0''"
  by (simp add: lookup_url_def zero_SearchParams_def limit_def Sprint_int_def digits.simps)

lemma url_smith_40:
  "lookup_url (zero_SearchParams\<lparr>LastName := ''Smith*''\<rparr>) limit 40 =
     ''https://npiregistry.cms.hhs.gov/api/?number=&enumeration_type=&taxonomy_description=&first_name=&last_name=Smith*&organization_name=&address_purpose=&city=&state=&postal_code=&country_code=&limit=20&skip=40&version=2.0''"
  by (simp add: lookup_url_def zero_SearchParams_def limit_def Sprint_int_def digits.simps)

lemma url_smith_60:
  "lookup_url (zero_SearchParams\<lparr>LastName := ''Smith*''\<rparr>) limit 60 =
     ''https://npiregistry.cms.hhs.gov/api/?number=&enumeration_type=&taxonomy_description=&first_name=&last_name=Smith*&organization_name=&address_purpose=&city=&state=&postal_code=&country_code=&limit=20&skip=60&version=2.0''"
  by (simp add: lookup_url_def zero_SearchParams_def limit_def Sprint_int_def digits.simps)

lemmas smith_eval = session_eval form_smith submit_smith_submitted cancel_smith_cancelled
  sent_smith sent_cancel_smith label_smith_query label_zero init_globals_def limit_def

section \<open>The claims\<close>

text \<open>
  C1, as stated, fails. The registry answers with full pages. The user opens the form,
  types the last name \<open>Smith\<close> and submits: \<open>run\<close> looks up \<open>last_name=Smith*\<close> at
  offset 0 and shows its list. While that list is on screen, \<open>searchParams\<close> still holds
  the query, and \<open>"next"\<close> looks up \<open>last_name=Smith*\<close> at offset 20 in a list of its
  own. The shared query is wiped in either of two ways, and the next navigation action
  then sends six empty fields and names no field in its title:
  \<^item> the user closes the first list: the call of \<open>run\<close> returns and \<open>run\<close> executes its
    closing \<open>ClearSearchParams\<close>; \<open>"next"\<close> in the second list, still on screen, then
    requests \<open>last_name=\<close> at offset 40;
  \<^item> or, with the first list on screen, the user types \<open>npi\<close> again and cancels the
    form: the second \<open>run\<close> starts with \<open>ClearSearchParams\<close> and ends with it; \<open>"next"\<close>
    in the first list then requests \<open>last_name=\<close> at offset 20.
\<close>

theorem C1_navigation_after_reset_counterexample:
  "requests (effects_of (exec host_full_pages
      [Searchbar ''npi'' None submit_smith, Select 0 ''next'', Close 0, Select 0 ''next'']
      init_session))
     = [lookup_url (zero_SearchParams\<lparr>LastName := ''Smith*''\<rparr>) limit 0,
        lookup_url (zero_SearchParams\<lparr>LastName := ''Smith*''\<rparr>) limit 20,
        lookup_url zero_SearchParams limit 40]
   \<and> titles (effects_of (exec host_full_pages
      [Searchbar ''npi'' None submit_smith, Select 0 ''next'', Close 0, Select 0 ''next'']
      init_session))
     = [''LookupNPI Results for:   Smith*   '', ''LookupNPI Results for:   Smith*   '',
        ''LookupNPI Results for:      '']
   \<and> lookup_url zero_SearchParams limit 40
        \<noteq> lookup_url (zero_SearchParams\<lparr>LastName := ''Smith*''\<rparr>) limit 40
   \<and> requests (effects_of (exec host_full_pages
      [Searchbar ''npi'' None submit_smith, Searchbar ''npi'' None cancel_smith, Select 0 ''next'']
      init_session))
     = [lookup_url (zero_SearchParams\<lparr>LastName := ''Smith*''\<rparr>) limit 0,
        lookup_url (zero_SearchParams\<lparr>LastName := ''Smith*''\<rparr>) limit 0,
        lookup_url zero_SearchParams limit 20]
   \<and> titles (effects_of (exec host_full_pages
      [Searchbar ''npi'' None submit_smith, Searchbar ''npi'' None cancel_smith, Select 0 ''next'']
      init_session))
     = [''LookupNPI Results for:   Smith*   '', ''LookupNPI Results for:      '']
   \<and> lookup_url zero_SearchParams limit 20
        \<noteq> lookup_url (zero_SearchParams\<lparr>LastName := ''Smith*''\<rparr>) limit 20"
proof -
  have a: "requests (effects_of (exec host_full_pages
      [Searchbar ''npi'' None submit_smith, Select 0 ''next'', Close 0, Select 0 ''next'']
      init_session))
     = [lookup_url (zero_SearchParams\<lparr>LastName := ''Smith*''\<rparr>) limit 0,
        lookup_url (zero_SearchParams\<lparr>LastName := ''Smith*''\<rparr>) limit 20,
        lookup_url zero_SearchParams limit 40]"
    by (simp add: smith_eval)
  have b: "titles (effects_of (exec host_full_pages
      [Searchbar ''npi'' None submit_smith, Select 0 ''next'', Close 0, Select 0 ''next'']
      init_session))
     = [''LookupNPI Results for:   Smith*   '', ''LookupNPI Results for:   Smith*   '',
        ''LookupNPI Results for:      '']"
    by (simp add: smith_eval)
  have c: "lookup_url zero_SearchParams limit 40
             \<noteq> lookup_url (zero_SearchParams\<lparr>LastName := ''Smith*''\<rparr>) limit 40"
    unfolding url_zero_40 url_smith_40 by simp
  have d: "requests (effects_of (exec host_full_pages
      [Searchbar ''npi'' None submit_smith, Searchbar ''npi'' None cancel_smith, Select 0 ''next'']
      init_session))
     = [lookup_url (zero_SearchParams\<lparr>LastName := ''Smith*''\<rparr>) limit 0,
        lookup_url (zero_SearchParams\<lparr>LastName := ''Smith*''\<rparr>) limit 0,
        lookup_url zero_SearchParams limit 20]"
    by (simp add: smith_eval)
  have e: "titles (effects_of (exec host_full_pages
      [Searchbar ''npi'' None submit_smith, Searchbar ''npi'' None cancel_smith, Select 0 ''next'']
      init_session))
     = [''LookupNPI Results for:   Smith*   '', ''LookupNPI Results for:      '']"
    by (simp add: smith_eval)
  have f: "lookup_url zero_SearchParams limit 20
             \<noteq> lookup_url (zero_SearchParams\<lparr>LastName := ''Smith*''\<rparr>) limit 20"
    unfolding url_zero_20 url_smith_20 by simp
  show ?thesis using a b c d e f by blast
qed

text \<open>
  C1, amended. When \<open>run\<close> completes, it has reset the shared query (the package-level
  \<open>searchParams\<close>), after the call that shows the choice list. The package keeps no
  snapshot of the submitted query: each \<open>"next"\<close> and \<open>"prev"\<close> action issues its lookup
  and builds the title of its list from \<open>searchParams\<close> as it is when the action runs, at
  the offset the action has just computed, and leaves \<open>searchParams\<close> as it found it.
\<close>

theorem C1_navigation_reads_shared_query:
  "requests (effects_of (next_OnChange h g))
     = [lookup_url (searchParams g) limit (skip g + limit)]
   \<and> requests (effects_of (prev_OnChange h g))
     = [lookup_url (searchParams g) limit (if skip g \<noteq> 0 then skip g - limit else skip g)]
   \<and> titles (effects_of (next_OnChange h g))
     = (if responds h (lookup_url (searchParams g) limit (skip g + limit))
        then [results_label (searchParams g)] else [])
   \<and> titles (effects_of (prev_OnChange h g))
     = (if responds h (lookup_url (searchParams g) limit
                        (if skip g \<noteq> 0 then skip g - limit else skip g))
        then [results_label (searchParams g)] else [])
   \<and> searchParams (globals_of (next_OnChange h g)) = searchParams g
   \<and> searchParams (globals_of (prev_OnChange h g)) = searchParams g
   \<and> searchParams (globals_of (run h u g))
     = (if fst (run h u g) = Completed then zero_SearchParams
        else searchParams (fst (Form u (ClearSearchParams g))))"
  using run_searchParams_eq [of h u g]
  by (simp add: next_OnChange_requests prev_OnChange_requests next_OnChange_titles
      prev_OnChange_titles next_OnChange_globals prev_OnChange_globals)

text \<open>
  C2, at the input where the code departs from it. The registry answers with full pages.
  First search: the user submits the form and selects \<open>"next"\<close> twice, each time in the
  newest list; the lookups are at offsets 0, 20 and 40. Second search: the user opens the
  form again and submits. \<open>run\<close> passes the constant 0 to its lookup but does not assign
  to \<open>skip\<close>, which is still 40 when the new list is shown. The first \<open>"next"\<close> of the
  second search, selected in that new list, therefore requests offset 60, not 20. Every
  list shown on the way offers \<open>"next"\<close>. (That \<open>run\<close> never changes \<open>skip\<close> is lemma
  \<open>run_skip\<close>.)
\<close>

theorem C2_stale_offset_after_new_search:
  "requests (effects_of (exec host_full_pages
      [Searchbar ''npi'' None submit_smith, Select 0 ''next'', Select 1 ''next'',
       Searchbar ''npi'' None submit_smith, Select 3 ''next''] init_session))
   = [lookup_url (zero_SearchParams\<lparr>LastName := ''Smith*''\<rparr>) limit 0,
      lookup_url (zero_SearchParams\<lparr>LastName := ''Smith*''\<rparr>) limit 20,
      lookup_url (zero_SearchParams\<lparr>LastName := ''Smith*''\<rparr>) limit 40,
      lookup_url (zero_SearchParams\<lparr>LastName := ''Smith*''\<rparr>) limit 0,
      lookup_url (zero_SearchParams\<lparr>LastName := ''Smith*''\<rparr>) limit 60]
   \<and> map (\<lambda>m. m ''next'' \<noteq> None) (lists_shown (effects_of (exec host_full_pages
      [Searchbar ''npi'' None submit_smith, Select 0 ''next'', Select 1 ''next'',
       Searchbar ''npi'' None submit_smith, Select 3 ''next''] init_session)))
     = [True, True, True, True, True]
   \<and> skip (vars (globals_of (exec host_full_pages
      [Searchbar ''npi'' None submit_smith, Select 0 ''next'', Select 1 ''next'',
       Searchbar ''npi'' None submit_smith] init_session))) = 40
   \<and> lookup_url (zero_SearchParams\<lparr>LastName := ''Smith*''\<rparr>) limit 60 =
     ''https://npiregistry.cms.hhs.gov/api/?number=&enumeration_type=&taxonomy_description=&first_name=&last_name=Smith*&organization_name=&address_purpose=&city=&state=&postal_code=&country_code=&limit=20&skip=60&version=2.0''"
proof -
  have a: "requests (effects_of (exec host_full_pages
      [Searchbar ''npi'' None submit_smith, Select 0 ''next'', Select 1 ''next'',
       Searchbar ''npi'' None submit_smith, Select 3 ''next''] init_session))
   = [lookup_url (zero_SearchParams\<lparr>LastName := ''Smith*''\<rparr>) limit 0,
      lookup_url (zero_SearchParams\<lparr>LastName := ''Smith*''\<rparr>) limit 20,
      lookup_url (zero_SearchParams\<lparr>LastName := ''Smith*''\<rparr>) limit 40,
      lookup_url (zero_SearchParams\<lparr>LastName := ''Smith*''\<rparr>) limit 0,
      lookup_url (zero_SearchParams\<lparr>LastName := ''Smith*''\<rparr>) limit 60]"
    by (simp add: smith_eval)
  have b: "map (\<lambda>m. m ''next'' \<noteq> None) (lists_shown (effects_of (exec host_full_pages
      [Searchbar ''npi'' None submit_smith, Select 0 ''next'', Select 1 ''next'',
       Searchbar ''npi'' None submit_smith, Select 3 ''next''] init_session)))
     = [True, True, True, True, True]"
    by (simp add: smith_eval)
  have c: "skip (vars (globals_of (exec host_full_pages
      [Searchbar ''npi'' None submit_smith, Select 0 ''next'', Select 1 ''next'',
       Searchbar ''npi'' None submit_smith] init_session))) = 40"
    by (simp add: smith_eval)
  show ?thesis using a b c url_smith_60 by blast
qed

text \<open>
  C3, as stated, fails: when the form is cancelled, \<open>run\<close> still sends the lookup. The
  user types the last name \<open>Smith\<close> and cancels; the request for \<open>last_name=Smith*\<close> at
  offset 0 goes out.
\<close>

theorem C3_cancel_still_looks_up_counterexample:
  "\<not> isSubmitted cancel_smith
   \<and> requests (effects_of (run host_full_pages cancel_smith init_globals))
     = [''https://npiregistry.cms.hhs.gov/api/?number=&enumeration_type=&taxonomy_description=&first_name=&last_name=Smith*&organization_name=&address_purpose=&city=&state=&postal_code=&country_code=&limit=20&skip=0&version=2.0'']"
proof -
  have "sent_params cancel_smith init_globals = zero_SearchParams\<lparr>LastName := ''Smith*''\<rparr>"
    by (simp add: sent_params_def cancel_smith_def Form_fst apply_edits_Cons_fst RemoveSpaces_def
      ReplaceAll_space_plus_def set_params_def zero_SearchParams_def)
  then show ?thesis by (simp add: run_requests url_smith_0) (simp add: cancel_smith_def)
qed

text \<open>
  C3, amended. Whether the form was submitted or cancelled, \<open>run\<close> issues exactly one
  lookup, at offset 0, for the query the form left (spaces replaced). Only the choice list
  depends on the form: it is shown if and only if the form was submitted (and the host
  gave a response); a cancelled form shows none. When \<open>run\<close> completes, which it does
  if and only if the host gave a response to the lookup, the shared query is reset.
\<close>

theorem C3_cancel_skips_the_list_only:
  "requests (effects_of (run h u g)) = [lookup_url (sent_params u g) limit 0]
   \<and> lists_shown (effects_of (run h u g))
     = (if isSubmitted u \<and> responds h (lookup_url (sent_params u g) limit 0)
        then [CreateDisambiguationElements (page_of h (lookup_url (sent_params u g) limit 0))]
        else [])
   \<and> fst (run h u g)
     = (if responds h (lookup_url (sent_params u g) limit 0) then Completed else Panicked)
   \<and> searchParams (globals_of (run h u g))
     = (if fst (run h u g) = Completed then zero_SearchParams
        else searchParams (fst (Form u (ClearSearchParams g))))"
  using run_searchParams_eq [of h u g] run_status [of h u g]
  by (simp add: run_requests run_lists)

text \<open>
  C4, as stated, fails: the host answers with a body that does not decode; the decoder
  returns an error. \<open>GetLookupResults\<close> logs it and returns a result page (the zero-valued
  one), not a failure.
\<close>

theorem C4_decode_failure_returns_page_counterexample:
  "HTTPRequest host_bad_json (lookup_url zero_SearchParams limit 0) = (Some \<lparr>Data = ''<html>''\<rparr>, None)
   \<and> Unmarshal host_bad_json ''<html>'' = (\<lparr>ResultCount = 0, Results = []\<rparr>, Some ''invalid character'')
   \<and> GetLookupResults host_bad_json zero_SearchParams limit 0
      = (Some \<lparr>ResultCount = 0, Results = []\<rparr>,
         [Http_GET (lookup_url zero_SearchParams limit 0), Log_Error ''JSON Unmarshal failed''])"
  by (simp add: GetLookupResults_def host_bad_json_def)

text \<open>
  C4, amended. For every query and offset, \<open>GetLookupResults\<close> has no failure result: if
  the host gives a response, it returns the page that the decoder left, whether or not the
  transport or the decoder reported an error; an error of the transport is logged as
  \<open>Lookup failed\<close>, an error of the decoder as \<open>JSON Unmarshal failed\<close>. It receives the
  offset by value and cannot change \<open>skip\<close>: \<open>run\<close> leaves \<open>skip\<close> as it was, and the
  \<open>"next"\<close> and \<open>"prev"\<close> closures set \<open>skip\<close> before the lookup, to the same value
  whatever the lookup does.
\<close>

theorem C4_failures_logged_page_returned:
  "fst (GetLookupResults h p lim sk)
     = map_option (\<lambda>r. fst (Unmarshal h (Data r))) (fst (HTTPRequest h (lookup_url p lim sk)))
   \<and> (Log_Error ''Lookup failed'' \<in> set (snd (GetLookupResults h p lim sk)))
     = (snd (HTTPRequest h (lookup_url p lim sk)) \<noteq> None)
   \<and> (Log_Error ''JSON Unmarshal failed'' \<in> set (snd (GetLookupResults h p lim sk)))
     = (case fst (HTTPRequest h (lookup_url p lim sk)) of
          None \<Rightarrow> False
        | Some r \<Rightarrow> snd (Unmarshal h (Data r)) \<noteq> None)
   \<and> skip (globals_of (run h u g)) = skip g
   \<and> skip (globals_of (next_OnChange h g)) = skip g + limit
   \<and> skip (globals_of (prev_OnChange h g)) = (if skip g \<noteq> 0 then skip g - limit else skip g)"
  using GetLookupResults_result [of h p lim sk] GetLookupResults_transport_log [of h p lim sk]
    GetLookupResults_decode_log [of h p lim sk]
  by (simp add: run_skip next_OnChange_globals prev_OnChange_globals)

text \<open>
  C5. For every result page, the choice list that \<open>CreateDisambiguationElements\<close> builds
  holds under the key \<open>"next"\<close> the choice labelled \<open>Next 20 Results\<close>, whose closure is
  the one that pages forward, if the page holds exactly twenty records (the page size),
  and nothing under that key otherwise; it holds under the key \<open>"prev"\<close> the choice
  labelled \<open>Previous 20 Results\<close>, whose closure is the one that pages backward, for every
  page: the function does not look at the offset, so also at offset 0, and also for a page
  of fewer than twenty records. No other choice of the list pages: a choice that pages
  forward exists if and only if the page holds twenty records, and it is the one under
  \<open>"next"\<close>; the choice that pages backward is the one under \<open>"prev"\<close>.
\<close>

theorem C5_next_iff_full_page:
  "(''next'' \<in> dom (CreateDisambiguationElements results)) = (length results = 20)
   \<and> ''prev'' \<in> dom (CreateDisambiguationElements results)
   \<and> CreateDisambiguationElements results ''next'' =
       (if length results = 20
        then Some \<lparr>Label = ''Next 20 Results'', Order = word_of_nat (length results) + 1,
                   OnChange = Go_next\<rparr>
        else None)
   \<and> CreateDisambiguationElements results ''prev'' =
       Some \<lparr>Label = ''Previous 20 Results'', Order = word_of_nat (length results) + 1,
             OnChange = Go_prev\<rparr>
   \<and> call_OnChange h Go_next g = next_OnChange h g
   \<and> call_OnChange h Go_prev g = prev_OnChange h g
   \<and> (\<exists>key choice. CreateDisambiguationElements results key = Some choice
         \<and> OnChange choice = Go_next) = (length results = 20)
   \<and> (CreateDisambiguationElements results key = Some choice \<and> OnChange choice = Go_next)
       = (length results = 20 \<and> key = ''next'' \<and> choice = next_option results)
   \<and> (CreateDisambiguationElements results key = Some choice \<and> OnChange choice = Go_prev)
       = (key = ''prev'' \<and> choice = prev_option results)"
proof -
  have n: "CreateDisambiguationElements results ''next'' =
       (if length results = 20
        then Some \<lparr>Label = ''Next 20 Results'', Order = word_of_nat (length results) + 1,
                   OnChange = Go_next\<rparr>
        else None)"
    by (simp add: CreateDisambiguationElements_next next_option_def)
  have p: "CreateDisambiguationElements results ''prev'' =
       Some \<lparr>Label = ''Previous 20 Results'', Order = word_of_nat (length results) + 1,
             OnChange = Go_prev\<rparr>"
    by (simp add: CreateDisambiguationElements_prev prev_option_def)
  have fwd: "(CreateDisambiguationElements results k = Some c \<and> OnChange c = Go_next)
       = (length results = 20 \<and> k = ''next'' \<and> c = next_option results)" for k c
    using page_option_keys(1) [of results k c]
    by (auto simp: CreateDisambiguationElements_next next_option_def split: if_splits)
  have bwd: "(CreateDisambiguationElements results k = Some c \<and> OnChange c = Go_prev)
       = (k = ''prev'' \<and> c = prev_option results)" for k c
    using page_option_keys(2) [of results k c]
    by (auto simp: CreateDisambiguationElements_prev prev_option_def)
  have ex: "(\<exists>key choice. CreateDisambiguationElements results key = Some choice
         \<and> OnChange choice = Go_next) = (length results = 20)"
    unfolding fwd by blast
  show ?thesis using n p ex fwd [of key choice] bwd [of key choice]
    by (simp add: dom_def)
qed

text \<open>
  C6. For every offset that is not negative, selecting \<open>"next"\<close> and then \<open>"prev"\<close>
  brings \<open>skip\<close> back to where it was; selecting \<open>"prev"\<close> at offset 0 leaves it at 0;
  and \<open>"prev"\<close> at an offset that is a non-negative multiple of twenty never leaves a
  negative offset. All this holds whatever the host answers to the lookups. Along every
  session that starts from the freshly loaded package, the offset is never negative (as
  long as the session has fewer than \<open>2 ^ 63 / 20\<close> events, so that the 64-bit integer
  cannot wrap around), whatever is typed, selected or closed.
\<close>

theorem C6_next_then_prev:
  "(0 \<le> sint (skip g) \<longrightarrow>
      skip (globals_of (prev_OnChange h (globals_of (next_OnChange h g)))) = skip g
      \<and> skip (globals_of (prev_OnChange h (g\<lparr>skip := 0\<rparr>))) = 0
      \<and> (20 dvd sint (skip g) \<longrightarrow> 0 \<le> sint (skip (globals_of (prev_OnChange h g)))))
   \<and> (20 * int (length es) < 2 ^ 63 \<longrightarrow>
        0 \<le> sint (skip (vars (globals_of (exec h es init_session)))))"
  by (simp add: next_OnChange_globals prev_OnChange_globals plus_limit_nonzero sint_minus_limit
      offset_never_negative)

theorem C6_next_then_prev_witness:
  "0 \<le> sint (skip (init_globals\<lparr>skip := 40\<rparr>))
   \<and> 20 dvd sint (skip (init_globals\<lparr>skip := 40\<rparr>))
   \<and> 20 * int (length [Searchbar ''npi'' None submit_smith, Select 0 ''prev'', Select 0 ''next'',
         Select 0 ''prev'', Select 0 ''prev'']) < 2 ^ 63
   \<and> skip (globals_of (prev_OnChange host_full_pages
         (globals_of (next_OnChange host_full_pages (init_globals\<lparr>skip := 40\<rparr>))))) = 40
   \<and> skip (globals_of (prev_OnChange host_full_pages (init_globals\<lparr>skip := 40, skip := 0\<rparr>))) = 0
   \<and> 0 \<le> sint (skip (globals_of (prev_OnChange host_full_pages (init_globals\<lparr>skip := 40\<rparr>))))
   \<and> 0 \<le> sint (skip (vars (globals_of (exec host_full_pages
         [Searchbar ''npi'' None submit_smith, Select 0 ''prev'', Select 0 ''next'',
          Select 0 ''prev'', Select 0 ''prev''] init_session))))"
  using C6_next_then_prev [of "init_globals\<lparr>skip := 40\<rparr>" host_full_pages
      "[Searchbar ''npi'' None submit_smith, Select 0 ''prev'', Select 0 ''next'',
        Select 0 ''prev'', Select 0 ''prev'']"]
  by (simp add: init_globals_def)

text \<open>
  C7, as stated, fails: the value that the \<open>OnChange\<close> closure of a free-text input
  stores keeps the spaces of the raw input. The input \<open>Mary Ann\<close> is stored as
  \<open>Mary Ann*\<close>.
\<close>

theorem C7_stored_value_keeps_spaces_counterexample:
  "SearchParams.FirstName (searchParams (fst (Input_OnChange Input_firstName ''Mary Ann'' None init_globals)))
     = ''Mary Ann*''
   \<and> CHR '' '' \<in> set (SearchParams.FirstName
         (searchParams (fst (Input_OnChange Input_firstName ''Mary Ann'' None init_globals))))"
  by (simp add: set_params_def)

text \<open>
  C7, amended. For every raw input to a free-text input (first name, last name,
  organization, city, state), the stored value is the raw input followed by \<open>*\<close>, so it
  ends with \<open>*\<close>; the spaces are kept in the stored value. The lookup that \<open>run\<close> issues
  when the form has closed is built from a copy of the query in which \<open>RemoveSpaces\<close> has
  replaced every space of every field by \<open>+\<close>: no field of that copy and no position of
  the requested URL holds a space.
\<close>

theorem C7_wildcard_stored_spaces_replaced_on_submit:
  "i \<noteq> Input_number \<longrightarrow>
     field_of i (searchParams (fst (Input_OnChange i raw err g))) = raw @ ''*''
     \<and> last (field_of i (searchParams (fst (Input_OnChange i raw err g)))) = CHR ''*''
     \<and> requests (effects_of (run h u g)) = [lookup_url (sent_params u g) limit 0]
     \<and> CHR '' '' \<notin> set (field_of j (sent_params u g))
     \<and> CHR '' '' \<notin> set (lookup_url (sent_params u g) limit 0)"
  by (simp add: Input_OnChange_wildcard run_requests sent_params_no_space lookup_url_no_space)

theorem C7_wildcard_stored_spaces_replaced_on_submit_witness:
  "Input_firstName \<noteq> Input_number
   \<and> SearchParams.FirstName (searchParams (fst (Input_OnChange Input_firstName ''Mary Ann'' None init_globals)))
       = ''Mary Ann*''
   \<and> SearchParams.FirstName (sent_params submit_mary_ann init_globals) = ''Mary+Ann*''
   \<and> requests (effects_of (run host_full_pages submit_mary_ann init_globals))
       = [lookup_url (sent_params submit_mary_ann init_globals) limit 0]
   \<and> CHR '' '' \<notin> set (lookup_url (sent_params submit_mary_ann init_globals) limit 0)"
proof -
  have sent: "SearchParams.FirstName (sent_params submit_mary_ann init_globals) = ''Mary+Ann*''"
    by (simp add: sent_params_def submit_mary_ann_def Form_fst apply_edits_Cons_fst set_params_def
        RemoveSpaces_def ReplaceAll_space_plus_def)
  show ?thesis
    using sent C7_wildcard_stored_spaces_replaced_on_submit
      [of Input_firstName "''Mary Ann''" None init_globals host_full_pages submit_mary_ann
          Input_firstName]
    by simp
qed

text \<open>
  C8, at the input where the code departs from it: the number \<open>123\<close> (length 3, so the
  warning is emitted) when the \<open>Markdown\<close> whisper returns an error. The closure logs the
  error and returns before the assignment: the query still holds the old number (here the
  empty string), not \<open>123\<close>. The closures of city and state assign first and warn
  afterwards. Lemma \<open>Input_number_warning\<close> is the first half of the claim (the warning is
  emitted if and only if the length is neither 0 nor 10), and \<open>Input_number_stored\<close> says
  when the number is stored.
\<close>

theorem C8_number_not_stored_when_warning_fails:
  "Input_OnChange Input_number ''123'' (Some ''context deadline exceeded'') init_globals =
     (init_globals,
      [Whisper_Markdown ''LookupNPI Error'' ''Npi must be 10 digits'',
       Log_Error ''failed to emit whisper''])
   \<and> SearchParams.Number (searchParams init_globals) = []"
  by (simp add: init_globals_def zero_SearchParams_def)

text \<open>
  C9. For every record, the label of its choice is \<open>"* NPI: {number}, {label}"\<close>, where
  the label part is \<open>"Organization: {name}"\<close> if the organization name is not empty (also
  when the first name is not empty either: the later assignment wins), otherwise
  \<open>"Name: {first} {last}"\<close> if the first name is not empty, otherwise the empty string, so
  that only the number remains. The choice list holds that choice for each record of the
  page, under the key of its index.
\<close>

theorem C9_label_precedence:
  "item_label item =
     (if Basic.Organization (Basic item) \<noteq> []
      then ''Organization: '' @ Basic.Organization (Basic item)
      else if Basic.FirstName (Basic item) \<noteq> []
      then ''Name: '' @ Basic.FirstName (Basic item) @ '' '' @ Basic.LastName (Basic item)
      else [])
   \<and> Label (item_option i item) =
       ''* NPI: '' @ Sprint_int (NpiInfo.Number item) @ '', '' @ item_label item
   \<and> (i < length results \<and> length results \<le> 2 ^ 63 \<longrightarrow>
        CreateDisambiguationElements results (Sprint_int (word_of_nat i)) =
          Some (item_option i (results ! i)))"
  by (simp add: item_label_eq item_option_def CreateDisambiguationElements_item)

theorem C9_label_precedence_witness:
  "(0::nat) < length [ann_smith] \<and> length [ann_smith] \<le> (2::nat) ^ 63
   \<and> item_label ann_smith = ''Name: ANN SMITH''
   \<and> Label (item_option 0 ann_smith) = ''* NPI: 1234567893, Name: ANN SMITH''
   \<and> CreateDisambiguationElements [ann_smith] ''0'' = Some (item_option 0 ann_smith)"
  using C9_label_precedence [of ann_smith 0 "[ann_smith]"]
  by (simp add: ann_smith_def Sprint_int_def digits.simps)

text \<open>
  C10. For every raw input to a free-text input, the empty string included, the stored
  value is the raw input followed by \<open>*\<close>. So once such an input has been edited, its
  field is not empty after any further edits of the form; clearing the input stores \<open>*\<close>
  alone, and when that was the last edit, \<open>*\<close> is the value of the field in the lookup
  that \<open>run\<close> sends.
\<close>

theorem C10_wildcard_appended_unconditionally:
  "i \<noteq> Input_number \<longrightarrow>
     field_of i (searchParams (fst (Input_OnChange i raw err g))) = raw @ ''*''
     \<and> field_of i (searchParams (fst (Input_OnChange i [] err g))) = ''*''
     \<and> (i \<in> fst ` set es \<longrightarrow> field_of i (searchParams (fst (apply_edits es g))) \<noteq> [])
     \<and> (edits u = es @ [(i, [], err)] \<longrightarrow>
          field_of i (sent_params u g) = ''*''
          \<and> requests (effects_of (run h u g)) = [lookup_url (sent_params u g) limit 0])"
  by (simp add: Input_OnChange_wildcard apply_edits_keeps_nonempty cleared_field_sent run_requests)

theorem C10_wildcard_appended_unconditionally_witness:
  "Input_firstName \<noteq> Input_number
   \<and> Input_firstName \<in> fst ` set [(Input_lastName, ''Smith'', None), (Input_firstName, ''Mary Ann'', None)]
   \<and> edits submit_cleared =
       [(Input_lastName, ''Smith'', None), (Input_firstName, ''Mary Ann'', None)]
         @ [(Input_firstName, [], None)]
   \<and> SearchParams.FirstName (searchParams (fst (Input_OnChange Input_firstName ''Mary Ann'' None init_globals)))
       = ''Mary Ann*''
   \<and> SearchParams.FirstName (searchParams (fst (Input_OnChange Input_firstName [] None init_globals))) = ''*''
   \<and> SearchParams.FirstName (searchParams (fst (apply_edits
         [(Input_lastName, ''Smith'', None), (Input_firstName, ''Mary Ann'', None)] init_globals))) \<noteq> []
   \<and> SearchParams.FirstName (sent_params submit_cleared init_globals) = ''*''
   \<and> requests (effects_of (run host_full_pages submit_cleared init_globals))
       = [lookup_url (sent_params submit_cleared init_globals) limit 0]"
  using C10_wildcard_appended_unconditionally
    [of Input_firstName "''Mary Ann''" None init_globals
        "[(Input_lastName, ''Smith'', None), (Input_firstName, ''Mary Ann'', None)]"
        submit_cleared host_full_pages]
    C10_wildcard_appended_unconditionally
    [of Input_firstName "[]" None init_globals
        "[(Input_lastName, ''Smith'', None), (Input_firstName, ''Mary Ann'', None)]"
        submit_cleared host_full_pages]
  by (simp add: submit_cleared_def)

end
